theory Spec2Isabelle
  imports Main "HOL-Library.Word"
begin

section \<open>Data model of the provisioner\<close>

text \<open>
  A shallow embedding of \<^verbatim>\<open>src/ESP32_WiFiProvisioner.cpp\<close> and its header.
  The C++ object and the hardware it drives are one record that every member function
  takes and returns. What the object only observes (the clock, the outcome of opening the
  flash namespace, the radio, the reset button, a pending HTTP request) arrives as a
  \<open>tick_input\<close>, one sample per call of \<^verbatim>\<open>loop()\<close>. Calls of
  \<^verbatim>\<open>log(...)\<close> write to the serial console only and are left out.
\<close>

type_synonym u8 = "8 word"
type_synonym u32 = "32 word"

datatype ProvisionerState =
    STATE_INIT
  | STATE_LOAD_CONFIG
  | STATE_CONNECTING
  | STATE_CONNECTED
  | STATE_RETRY_WAIT
  | STATE_PROVISIONING
  | STATE_PROVISIONING_ACTIVE

datatype HTTPMethod = HTTP_GET | HTTP_POST

datatype WiFiMode = WIFI_OFF | WIFI_STA | WIFI_AP

text \<open>The fields of \<^verbatim>\<open>WiFiProvisionerConfig\<close> that the code reads.\<close>

record WiFiProvisionerConfig =
  apName :: string
  apPassword :: string
  apTimeout :: u32
  maxRetries :: u8
  retryDelay :: u32
  autoWipeOnMaxRetries :: bool
  hardwareResetEnabled :: bool
  resetButtonDuration :: u32
  resetButtonActiveLow :: bool
  httpResetEnabled :: bool
  httpResetAuthRequired :: bool
  ledEnabled :: bool
  ledActiveLow :: bool
  mdnsEnabled :: bool
  mdnsName :: string
  doubleRebootDetectEnabled :: bool
  doubleRebootWindow :: u32

text \<open>
  The flash namespace \<^verbatim>\<open>"wifiprov"\<close>: the five keys the code defines, each holding a
  string or an unsigned 32-bit value.
\<close>

datatype nvs_key = NVS_SSID | NVS_PASSWORD | NVS_RESET_PWD | NVS_BOOT_COUNT | NVS_BOOT_TIME

datatype nvs_value = NvsStr string | NvsUInt u32

type_synonym nvs_store = "nvs_key \<rightharpoonup> nvs_value"

text \<open>
  The \<^verbatim>\<open>Preferences\<close> member is the handle of the ESP32 Arduino core (not part of
  this repository). Of the handle the model keeps its two flags.
\<close>

record Preferences =
  started :: bool
  readOnly :: bool

datatype handler =
    H_Root | H_Scan | H_Save | H_SaveGet | H_Reset | H_NotFound | H_Status

record WebServer =
  routes :: "(string \<times> HTTPMethod \<times> handler) list"
  notFoundHandler :: "handler option"
  listening :: bool

record network =
  net_ssid :: string
  net_rssi :: int
  net_open :: bool

record http_request =
  uri :: string
  http_method :: HTTPMethod
  args :: "(string \<times> string) list"

text \<open>
  Everything the device lets the outside see, in the order it happens: callbacks into
  the host application, HTTP responses, the blocking \<^verbatim>\<open>delay\<close> calls and
  \<^verbatim>\<open>ESP.restart()\<close>. \<open>SendPage b\<close> is the response 200 carrying the static
  configuration page, with the reset-password fragment when \<open>b\<close> holds.
\<close>

datatype event =
    OnConnected
  | OnFailed u8
  | OnAPMode string string
  | OnReset
  | Send nat string string
  | SendPage bool
  | SendHeader string string
  | Delay nat
  | Restart

record provisioner =
  state :: ProvisionerState
  retryCount :: u8
  lastRetryTime :: u32
  apStartTime :: u32
  buttonPressStart :: u32
  buttonPressed :: bool
  preferences :: Preferences
  storedSSID :: string
  storedPassword :: string
  resetPassword :: string
  dnsServer :: "bool option"
  webServer :: "WebServer option"
  onConnectedCallback :: bool
  onFailedCallback :: bool
  onAPModeCallback :: bool
  onResetCallback :: bool
  nvs :: nvs_store
  wifi_mode :: WiFiMode
  softAP_up :: "(string \<times> string) option"
  mdns_begun :: bool
  scan_results :: "network list"
  led_level :: bool
  restarted :: bool
  events :: "event list"

text \<open>
  \<open>dnsServer\<close> and \<open>webServer\<close> are the two owned pointers: \<open>None\<close> is
  \<^verbatim>\<open>nullptr\<close>, \<open>Some True\<close> a DNS server that was started. A callback field
  tells whether the host registered the hook. The fields from \<open>nvs\<close> on are the
  hardware: the flash namespace, the radio (\<open>softAP_up\<close> holds the name and the password
  of the access point while one is up), the LED pin, whether \<^verbatim>\<open>ESP.restart()\<close> was called (it
  does not return), and the trace of events.
\<close>

record tick_input =
  now :: u32
  nvs_ok :: bool
  join_ok :: bool
  link_up :: bool
  button_level :: bool
  request :: "http_request option"
  scan_found :: "network list option"
  mac :: "u8 \<times> u8 \<times> u8 \<times> u8 \<times> u8 \<times> u8"
  ap_ip :: string
  local_ip :: string

text \<open>
  \<open>now\<close> is what \<^verbatim>\<open>millis()\<close> returns during the call, \<open>nvs_ok\<close> whether the
  flash driver can open the namespace, \<open>join_ok\<close> whether the bounded wait of
  \<^verbatim>\<open>connectToWiFi\<close> ends with the station connected, \<open>link_up\<close> whether
  \<^verbatim>\<open>WiFi.status()\<close> is \<^verbatim>\<open>WL_CONNECTED\<close>, \<open>button_level\<close> the level read from
  the reset pin (\<open>True\<close> is \<^verbatim>\<open>HIGH\<close>), \<open>request\<close> the request that
  \<^verbatim>\<open>handleClient()\<close> finds pending, \<open>scan_found\<close> the networks a scan would
  find (\<open>None\<close> when the scan fails and \<^verbatim>\<open>scanNetworks()\<close> is negative).
\<close>

definition emit :: "event \<Rightarrow> provisioner \<Rightarrow> provisioner" where
  "emit e s = s\<lparr>events := events s @ [e]\<rparr>"

definition ESP_restart :: "provisioner \<Rightarrow> provisioner" where
  "ESP_restart s = (emit Restart s)\<lparr>restarted := True\<rparr>"

section \<open>The persistence handle\<close>

text \<open>
  \<^verbatim>\<open>Preferences::begin\<close> returns false on a handle that is already started, and
  (having noted the access mode) when the driver cannot open the namespace; the getters
  return the default, and
  \<^verbatim>\<open>put*\<close>, \<^verbatim>\<open>clear\<close> and \<^verbatim>\<open>end\<close> do nothing, on a handle that is not
  started. Writes need the handle opened for writing.
\<close>

definition prefs_begin :: "bool \<Rightarrow> bool \<Rightarrow> provisioner \<Rightarrow> bool \<times> provisioner" where
  "prefs_begin ok ro s =
     (if started (preferences s) then (False, s)
      else
        let s1 = s\<lparr>preferences := (preferences s)\<lparr>readOnly := ro\<rparr>\<rparr> in
        if \<not> ok then (False, s1)
        else (True, s1\<lparr>preferences := (preferences s1)\<lparr>started := True\<rparr>\<rparr>))"

definition prefs_end :: "provisioner \<Rightarrow> provisioner" where
  "prefs_end s = s\<lparr>preferences := (preferences s)\<lparr>started := False\<rparr>\<rparr>"

definition prefs_getString :: "nvs_key \<Rightarrow> string \<Rightarrow> provisioner \<Rightarrow> string" where
  "prefs_getString k d s =
     (if started (preferences s)
      then (case nvs s k of Some (NvsStr v) \<Rightarrow> v | _ \<Rightarrow> d)
      else d)"

definition prefs_getUInt :: "nvs_key \<Rightarrow> u32 \<Rightarrow> provisioner \<Rightarrow> u32" where
  "prefs_getUInt k d s =
     (if started (preferences s)
      then (case nvs s k of Some (NvsUInt v) \<Rightarrow> v | _ \<Rightarrow> d)
      else d)"

definition prefs_put :: "nvs_key \<Rightarrow> nvs_value \<Rightarrow> provisioner \<Rightarrow> provisioner" where
  "prefs_put k v s =
     (if started (preferences s) \<and> \<not> readOnly (preferences s)
      then s\<lparr>nvs := (nvs s)(k \<mapsto> v)\<rparr>
      else s)"

definition prefs_clear :: "provisioner \<Rightarrow> provisioner" where
  "prefs_clear s =
     (if started (preferences s) \<and> \<not> readOnly (preferences s)
      then s\<lparr>nvs := Map.empty\<rparr>
      else s)"

section \<open>Credential store\<close>

definition loadCredentials :: "bool \<Rightarrow> provisioner \<Rightarrow> bool \<times> provisioner" where
  "loadCredentials ok s =
     (let (opened, s1) = prefs_begin ok True s in
      if \<not> opened then (False, s1)
      else
        let s2 = s1\<lparr>storedSSID := prefs_getString NVS_SSID [] s1\<rparr>;
            s3 = s2\<lparr>storedPassword := prefs_getString NVS_PASSWORD [] s2\<rparr>;
            s4 = prefs_end s3;
            hasCredentials = (length (storedSSID s4) > 0)
        in (hasCredentials, s4))"

definition saveCredentials :: "bool \<Rightarrow> string \<Rightarrow> string \<Rightarrow> provisioner \<Rightarrow> bool \<times> provisioner" where
  "saveCredentials ok ssid password s =
     (let (opened, s1) = prefs_begin ok False s in
      if \<not> opened then (False, s1)
      else
        let s2 = prefs_put NVS_SSID (NvsStr ssid) s1;
            s3 = prefs_put NVS_PASSWORD (NvsStr password) s2;
            s4 = prefs_end s3
        in (True, s4\<lparr>storedSSID := ssid, storedPassword := password\<rparr>))"

definition loadResetPassword :: "bool \<Rightarrow> provisioner \<Rightarrow> bool \<times> provisioner" where
  "loadResetPassword ok s =
     (let (opened, s1) = prefs_begin ok True s in
      if \<not> opened then (False, s1)
      else
        let s2 = s1\<lparr>resetPassword := prefs_getString NVS_RESET_PWD [] s1\<rparr>;
            s3 = prefs_end s2
        in (length (resetPassword s3) > 0, s3))"

text \<open>
  \<^verbatim>\<open>hashPassword\<close> is the lower-case hexadecimal SHA-256 digest computed by mbedTLS.
  The digest is a parameter \<open>H\<close> of every function that hashes.
\<close>

definition hashPassword :: "(string \<Rightarrow> string) \<Rightarrow> string \<Rightarrow> string" where
  "hashPassword H password = H password"

definition verifyPassword :: "(string \<Rightarrow> string) \<Rightarrow> string \<Rightarrow> string \<Rightarrow> bool" where
  "verifyPassword H password hash = (hashPassword H password = hash)"

definition saveResetPassword :: "(string \<Rightarrow> string) \<Rightarrow> bool \<Rightarrow> string \<Rightarrow> provisioner \<Rightarrow> bool \<times> provisioner" where
  "saveResetPassword H ok password s =
     (let (opened, s1) = prefs_begin ok False s in
      if \<not> opened then (False, s1)
      else
        let hash = hashPassword H password;
            s2 = prefs_put NVS_RESET_PWD (NvsStr hash) s1;
            s3 = prefs_end s2
        in (True, s3\<lparr>resetPassword := hash\<rparr>))"

definition clearAllCredentials :: "bool \<Rightarrow> provisioner \<Rightarrow> provisioner" where
  "clearAllCredentials ok s =
     (let (opened, s1) = prefs_begin ok False s;
          s2 = (if opened then prefs_end (prefs_clear s1) else s1)
      in s2\<lparr>storedSSID := [], storedPassword := [], resetPassword := []\<rparr>)"

text \<open>The public calls \<^verbatim>\<open>setCredentials\<close> and \<^verbatim>\<open>clearCredentials\<close>.\<close>

definition setCredentials :: "bool \<Rightarrow> string \<Rightarrow> string \<Rightarrow> bool \<Rightarrow> provisioner \<Rightarrow> bool \<times> provisioner" where
  "setCredentials ok ssid password reboot s =
     (let (saved, s1) = saveCredentials ok ssid password s in
      if saved then (True, if reboot then ESP_restart (emit (Delay 500) s1) else s1)
      else (False, s1))"

definition clearCredentials :: "bool \<Rightarrow> bool \<Rightarrow> provisioner \<Rightarrow> bool \<times> provisioner" where
  "clearCredentials ok reboot s =
     (let s1 = clearAllCredentials ok s in
      (True, if reboot then ESP_restart (emit (Delay 500) s1) else s1))"

section \<open>Radio, access point and web server\<close>

definition hexdigit :: "nat \<Rightarrow> char" where
  "hexdigit n = ''0123456789ABCDEF'' ! n"

definition hex2 :: "u8 \<Rightarrow> string" where
  "hex2 b = [hexdigit (unat b div 16), hexdigit (unat b mod 16)]"

definition getMACAddress :: "u8 \<times> u8 \<times> u8 \<times> u8 \<times> u8 \<times> u8 \<Rightarrow> string" where
  "getMACAddress m =
     (case m of (m0, m1, m2, m3, m4, m5) \<Rightarrow>
        hex2 m0 @ '':'' @ hex2 m1 @ '':'' @ hex2 m2 @ '':'' @
        hex2 m3 @ '':'' @ hex2 m4 @ '':'' @ hex2 m5)"

definition connectToWiFi :: "tick_input \<Rightarrow> provisioner \<Rightarrow> bool \<times> provisioner" where
  "connectToWiFi inp s = (join_ok inp, s\<lparr>wifi_mode := WIFI_STA\<rparr>)"

definition disconnectWiFi :: "provisioner \<Rightarrow> provisioner" where
  "disconnectWiFi s = s\<lparr>wifi_mode := WIFI_OFF\<rparr>"

definition stopWebServer :: "provisioner \<Rightarrow> provisioner" where
  "stopWebServer s = (case webServer s of None \<Rightarrow> s | Some w \<Rightarrow> s\<lparr>webServer := None\<rparr>)"

definition startConnectedWebServer :: "WiFiProvisionerConfig \<Rightarrow> provisioner \<Rightarrow> provisioner" where
  "startConnectedWebServer cfg s =
     (if \<not> httpResetEnabled cfg then s
      else if webServer s \<noteq> None then s
      else s\<lparr>webServer := Some
             \<lparr>routes = [(''/reset'', HTTP_POST, H_Reset), (''/status'', HTTP_GET, H_Status)],
              notFoundHandler = None, listening = True\<rparr>\<rparr>)"

definition setupWebServerProvisioningMode :: "WiFiProvisionerConfig \<Rightarrow> provisioner \<Rightarrow> provisioner" where
  "setupWebServerProvisioningMode cfg s =
     (let w0 = (case webServer s of
                  None \<Rightarrow> \<lparr>routes = [], notFoundHandler = None, listening = False\<rparr>
                | Some w \<Rightarrow> w);
          w1 = w0\<lparr>routes := routes w0 @
                  [(''/'', HTTP_GET, H_Root), (''/scan'', HTTP_GET, H_Scan),
                   (''/save'', HTTP_POST, H_Save), (''/save'', HTTP_GET, H_SaveGet)]\<rparr>;
          w2 = (if httpResetEnabled cfg
                then w1\<lparr>routes := routes w1 @ [(''/reset'', HTTP_POST, H_Reset)]\<rparr>
                else w1);
          w3 = w2\<lparr>notFoundHandler := Some H_NotFound\<rparr>
      in s\<lparr>webServer := Some (w3\<lparr>listening := True\<rparr>)\<rparr>)"

definition startProvisioningMode :: "WiFiProvisionerConfig \<Rightarrow> tick_input \<Rightarrow> provisioner \<Rightarrow> provisioner" where
  "startProvisioningMode cfg inp s =
     (let s1 = disconnectWiFi s;
          s2 = stopWebServer s1;
          name = filter (\<lambda>c. c \<noteq> CHR '':'')
                   (apName cfg @ ''-'' @ drop 9 (getMACAddress (mac inp)));
          s3 = s2\<lparr>wifi_mode := WIFI_AP\<rparr>;
          s4 = s3\<lparr>softAP_up := Some (name, apPassword cfg)\<rparr>;
          s5 = (if dnsServer s4 = None then s4\<lparr>dnsServer := Some False\<rparr> else s4);
          s6 = s5\<lparr>dnsServer := Some True\<rparr>;
          s7 = (if httpResetAuthRequired cfg then snd (loadResetPassword (nvs_ok inp) s6) else s6);
          s8 = setupWebServerProvisioningMode cfg s7;
          s9 = s8\<lparr>apStartTime := now inp\<rparr>
      in if onAPModeCallback s9 then emit (OnAPMode name (ap_ip inp)) s9 else s9)"

definition stopProvisioningMode :: "provisioner \<Rightarrow> provisioner" where
  "stopProvisioningMode s =
     (let s1 = (if dnsServer s \<noteq> None then s\<lparr>dnsServer := Some False\<rparr> else s);
          s2 = stopWebServer s1
      in s2\<lparr>softAP_up := None\<rparr>)"

section \<open>Reset\<close>

definition performReset :: "bool \<Rightarrow> provisioner \<Rightarrow> provisioner" where
  "performReset ok s =
     (let s1 = (if onResetCallback s then emit OnReset s else s);
          s2 = clearAllCredentials ok s1;
          s3 = emit (Delay 500) s2
      in ESP_restart s3)"

definition checkHardwareReset :: "WiFiProvisionerConfig \<Rightarrow> tick_input \<Rightarrow> provisioner \<Rightarrow> provisioner" where
  "checkHardwareReset cfg inp s =
     (let buttonState = button_level inp;
          isPressed = (if resetButtonActiveLow cfg then buttonState = False else buttonState = True)
      in if isPressed \<and> \<not> buttonPressed s
         then s\<lparr>buttonPressed := True, buttonPressStart := now inp\<rparr>
         else if isPressed \<and> buttonPressed s
         then (if now inp - buttonPressStart s \<ge> resetButtonDuration cfg
               then performReset (nvs_ok inp) s else s)
         else if \<not> isPressed \<and> buttonPressed s
         then s\<lparr>buttonPressed := False\<rparr>
         else s)"

definition checkDoubleReboot :: "WiFiProvisionerConfig \<Rightarrow> tick_input \<Rightarrow> provisioner \<Rightarrow> provisioner" where
  "checkDoubleReboot cfg inp s =
     (let (opened, s1) = prefs_begin (nvs_ok inp) False s in
      if \<not> opened then s1
      else
        let bootCount0 = prefs_getUInt NVS_BOOT_COUNT 0 s1;
            lastBootTime = prefs_getUInt NVS_BOOT_TIME 0 s1;
            currentTime = now inp;
            bootCount = bootCount0 + 1;
            s2 = prefs_put NVS_BOOT_COUNT (NvsUInt bootCount) s1;
            s3 = prefs_put NVS_BOOT_TIME (NvsUInt currentTime) s2;
            s4 = (if bootCount \<ge> 2 \<and> currentTime - lastBootTime < doubleRebootWindow cfg
                  then prefs_put NVS_BOOT_COUNT (NvsUInt 0) (clearAllCredentials (nvs_ok inp) s3)
                  else s3)
        in prefs_end s4)"

section \<open>Web server handlers\<close>

definition arg :: "http_request \<Rightarrow> string \<Rightarrow> string" where
  "arg req name = (case map_of (args req) name of Some v \<Rightarrow> v | None \<Rightarrow> [])"

definition handleRoot :: "WiFiProvisionerConfig \<Rightarrow> provisioner \<Rightarrow> provisioner" where
  "handleRoot cfg s = emit (SendPage (httpResetAuthRequired cfg)) s"

fun string_of_nat :: "nat \<Rightarrow> string" where
  "string_of_nat n =
     (if n < 10 then [''0123456789'' ! n]
      else string_of_nat (n div 10) @ [''0123456789'' ! (n mod 10)])"

definition String_of_int :: "int \<Rightarrow> string" where
  "String_of_int i = (if i < 0 then ''-'' @ string_of_nat (nat (- i)) else string_of_nat (nat i))"

definition scan_entry :: "network \<Rightarrow> string" where
  "scan_entry n =
     ''{'' @ ''\"ssid\":\"'' @ net_ssid n @ ''\",'' @
     ''\"rssi\":'' @ String_of_int (net_rssi n) @ '','' @
     ''\"secure\":'' @ (if \<not> net_open n then ''true'' else ''false'') @
     ''}''"

function handleScan_loop :: "network list \<Rightarrow> int \<Rightarrow> int \<Rightarrow> string \<Rightarrow> string" where
  "handleScan_loop nets n i json =
     (if i < n
      then handleScan_loop nets n (i + 1)
             (json @ (if i > 0 then '','' else []) @ scan_entry (nets ! nat i))
      else json)"
  by pat_completeness auto
termination
  by (relation "measure (\<lambda>(nets, n, i, json). nat (n - i))") auto

declare handleScan_loop.simps [simp del]

definition handleScan :: "tick_input \<Rightarrow> provisioner \<Rightarrow> provisioner" where
  "handleScan inp s =
     (let found = (case scan_found inp of None \<Rightarrow> [] | Some nets \<Rightarrow> nets);
          n = (case scan_found inp of None \<Rightarrow> - 2 | Some nets \<Rightarrow> int (length nets));
          s1 = s\<lparr>scan_results := found\<rparr>;
          json = handleScan_loop (scan_results s1) n 0 ''['' @ '']'';
          s2 = s1\<lparr>scan_results := []\<rparr>
      in emit (Send 200 ''application/json'' json) s2)"

definition handleSave ::
  "WiFiProvisionerConfig \<Rightarrow> (string \<Rightarrow> string) \<Rightarrow> tick_input \<Rightarrow> http_request \<Rightarrow> provisioner \<Rightarrow> provisioner" where
  "handleSave cfg H inp req s =
     (let ssid = arg req ''ssid'';
          password = arg req ''password'';
          resetPwd = arg req ''reset_password''
      in if length ssid = 0 then emit (Send 400 ''text/plain'' ''SSID is required'') s
         else
           let (saved, s1) = saveCredentials (nvs_ok inp) ssid password s in
           if \<not> saved then emit (Send 500 ''text/plain'' ''Failed to save credentials'') s1
           else
             let s2 = (if httpResetAuthRequired cfg \<and> length resetPwd > 0
                       then snd (saveResetPassword H (nvs_ok inp) resetPwd s1) else s1);
                 s3 = emit (Send 200 ''text/plain'' ''Configuration saved. Rebooting...'') s2;
                 s4 = emit (Delay 2000) s3
             in ESP_restart s4)"

definition handleSaveGet :: "provisioner \<Rightarrow> provisioner" where
  "handleSaveGet s = emit (Send 200 ''text/plain'' ''OK'') s"

definition handleReset ::
  "WiFiProvisionerConfig \<Rightarrow> (string \<Rightarrow> string) \<Rightarrow> tick_input \<Rightarrow> http_request \<Rightarrow> provisioner \<Rightarrow> provisioner" where
  "handleReset cfg H inp req s =
     (if \<not> httpResetEnabled cfg then emit (Send 403 ''text/plain'' ''Reset disabled'') s
      else
        let refusal =
              (if httpResetAuthRequired cfg
               then (let password = arg req ''password'' in
                     if length password = 0 then Some ''Password required''
                     else if \<not> verifyPassword H password (resetPassword s) then Some ''Invalid password''
                     else None)
               else None)
        in case refusal of
             Some msg \<Rightarrow> emit (Send 401 ''text/plain'' msg) s
           | None \<Rightarrow>
               let s1 = emit (Send 200 ''text/plain'' ''Resetting device...'') s;
                   s2 = emit (Delay 1000) s1
               in performReset (nvs_ok inp) s2)"

definition handleNotFound :: "provisioner \<Rightarrow> provisioner" where
  "handleNotFound s = emit (Send 302 ''text/plain'' []) (emit (SendHeader ''Location'' ''/'') s)"

definition handleStatus :: "tick_input \<Rightarrow> provisioner \<Rightarrow> provisioner" where
  "handleStatus inp s =
     emit (Send 200 ''application/json''
       (''{'' @ ''\"state\":\"connected\",'' @
        ''\"ssid\":\"'' @ storedSSID s @ ''\",'' @
        ''\"ip\":\"'' @ local_ip inp @ ''\"'' @ ''}'')) s"

definition run_handler ::
  "WiFiProvisionerConfig \<Rightarrow> (string \<Rightarrow> string) \<Rightarrow> tick_input \<Rightarrow> http_request \<Rightarrow> handler \<Rightarrow> provisioner \<Rightarrow> provisioner" where
  "run_handler cfg H inp req h s =
     (case h of
        H_Root \<Rightarrow> handleRoot cfg s
      | H_Scan \<Rightarrow> handleScan inp s
      | H_Save \<Rightarrow> handleSave cfg H inp req s
      | H_SaveGet \<Rightarrow> handleSaveGet s
      | H_Reset \<Rightarrow> handleReset cfg H inp req s
      | H_NotFound \<Rightarrow> handleNotFound s
      | H_Status \<Rightarrow> handleStatus inp s)"

text \<open>
  \<^verbatim>\<open>WebServer::handleClient\<close> (Arduino core): the pending request, if any, goes to the
  first registered route with its path and method, else to the not-found handler, else it
  is answered 404.
\<close>

definition handleClient ::
  "WiFiProvisionerConfig \<Rightarrow> (string \<Rightarrow> string) \<Rightarrow> tick_input \<Rightarrow> provisioner \<Rightarrow> provisioner" where
  "handleClient cfg H inp s =
     (case webServer s of
        None \<Rightarrow> s
      | Some w \<Rightarrow>
          (case request inp of
             None \<Rightarrow> s
           | Some req \<Rightarrow>
               if \<not> listening w then s
               else (case find (\<lambda>(p, m, h). p = uri req \<and> m = http_method req) (routes w) of
                       Some (p, m, h) \<Rightarrow> run_handler cfg H inp req h s
                     | None \<Rightarrow>
                         (case notFoundHandler w of
                            Some h \<Rightarrow> run_handler cfg H inp req h s
                          | None \<Rightarrow> emit (Send 404 ''text/plain'' (''Not found: '' @ uri req)) s))))"

section \<open>State machine\<close>

text \<open>
  One function per state handler. \<^verbatim>\<open>connectToWiFi\<close> waits at most ten seconds for the
  station to connect; its result is the input \<open>join_ok\<close>. Answering DNS queries
  (\<^verbatim>\<open>processNextRequest\<close>) and \<^verbatim>\<open>setLEDPattern\<close>, which is empty, change none of the
  fields kept here.
\<close>

definition handleStateInit :: "provisioner \<Rightarrow> provisioner" where
  "handleStateInit s = s\<lparr>state := STATE_LOAD_CONFIG\<rparr>"

definition handleStateLoadConfig :: "tick_input \<Rightarrow> provisioner \<Rightarrow> provisioner" where
  "handleStateLoadConfig inp s =
     (let (found, s1) = loadCredentials (nvs_ok inp) s in
      if found then s1\<lparr>retryCount := 0, state := STATE_CONNECTING\<rparr>
      else s1\<lparr>state := STATE_PROVISIONING\<rparr>)"

definition handleStateConnecting :: "WiFiProvisionerConfig \<Rightarrow> tick_input \<Rightarrow> provisioner \<Rightarrow> provisioner" where
  "handleStateConnecting cfg inp s =
     (let (connected, s1) = connectToWiFi inp s in
      if connected then
        let s2 = (if mdnsEnabled cfg then s1\<lparr>mdns_begun := True\<rparr> else s1);
            s3 = s2\<lparr>state := STATE_CONNECTED\<rparr>;
            s4 = startConnectedWebServer cfg s3
        in if onConnectedCallback s4 then emit OnConnected s4 else s4
      else s1\<lparr>state := STATE_RETRY_WAIT, lastRetryTime := now inp\<rparr>)"

definition handleStateConnected ::
  "WiFiProvisionerConfig \<Rightarrow> (string \<Rightarrow> string) \<Rightarrow> tick_input \<Rightarrow> provisioner \<Rightarrow> provisioner" where
  "handleStateConnected cfg H inp s =
     (let s1 = handleClient cfg H inp s in
      if restarted s1 then s1
      else if \<not> link_up inp then s1\<lparr>retryCount := 0, state := STATE_CONNECTING\<rparr>
      else s1)"

definition handleStateRetryWait :: "WiFiProvisionerConfig \<Rightarrow> tick_input \<Rightarrow> provisioner \<Rightarrow> provisioner" where
  "handleStateRetryWait cfg inp s =
     (if now inp - lastRetryTime s \<ge> retryDelay cfg then
        let s1 = s\<lparr>retryCount := retryCount s + 1\<rparr> in
        if retryCount s1 \<ge> maxRetries cfg then
          let s2 = (if onFailedCallback s1 then emit (OnFailed (retryCount s1)) s1 else s1) in
          if autoWipeOnMaxRetries cfg
          then (clearAllCredentials (nvs_ok inp) s2)\<lparr>state := STATE_PROVISIONING\<rparr>
          else s2\<lparr>retryCount := 0, state := STATE_CONNECTING\<rparr>
        else s1\<lparr>state := STATE_CONNECTING\<rparr>
      else s)"

definition handleStateProvisioning :: "WiFiProvisionerConfig \<Rightarrow> tick_input \<Rightarrow> provisioner \<Rightarrow> provisioner" where
  "handleStateProvisioning cfg inp s =
     (startProvisioningMode cfg inp s)\<lparr>state := STATE_PROVISIONING_ACTIVE\<rparr>"

definition handleStateProvisioningActive ::
  "WiFiProvisionerConfig \<Rightarrow> (string \<Rightarrow> string) \<Rightarrow> tick_input \<Rightarrow> provisioner \<Rightarrow> provisioner" where
  "handleStateProvisioningActive cfg H inp s =
     (let s1 = handleClient cfg H inp s in
      if restarted s1 then s1
      else if apTimeout cfg > 0 \<and> now inp - apStartTime s1 \<ge> apTimeout cfg then
        let s2 = stopProvisioningMode s1 in
        if length (storedSSID s2) > 0 then s2\<lparr>state := STATE_CONNECTING\<rparr> else s2
      else s1)"

definition updateLED :: "WiFiProvisionerConfig \<Rightarrow> tick_input \<Rightarrow> provisioner \<Rightarrow> provisioner" where
  "updateLED cfg inp s =
     (let lit = (if ledActiveLow cfg then False else True);
          dark = (if ledActiveLow cfg then True else False);
          blink = (\<lambda>onTime offTime :: u32.
             let period = onTime + offTime in
             if period = 0 then s\<lparr>led_level := lit\<rparr>
             else let phase = now inp mod period in
                  if phase < onTime then s\<lparr>led_level := lit\<rparr> else s\<lparr>led_level := dark\<rparr>)
      in if state s = STATE_PROVISIONING \<or> state s = STATE_PROVISIONING_ACTIVE then blink 100 100
         else if state s = STATE_CONNECTING \<or> state s = STATE_RETRY_WAIT then blink 100 900
         else if state s = STATE_CONNECTED then s\<lparr>led_level := lit\<rparr>
         else s\<lparr>led_level := dark\<rparr>)"

text \<open>The constructor; its argument is what the flash namespace holds at power-on.\<close>

definition ESP32_WiFiProvisioner :: "nvs_store \<Rightarrow> provisioner" where
  "ESP32_WiFiProvisioner flash =
     \<lparr>state = STATE_INIT, retryCount = 0, lastRetryTime = 0, apStartTime = 0,
      buttonPressStart = 0, buttonPressed = False,
      preferences = \<lparr>started = False, readOnly = False\<rparr>,
      storedSSID = [], storedPassword = [], resetPassword = [],
      dnsServer = None, webServer = None,
      onConnectedCallback = False, onFailedCallback = False,
      onAPModeCallback = False, onResetCallback = False,
      nvs = flash, wifi_mode = WIFI_OFF, softAP_up = None, mdns_begun = False,
      scan_results = [], led_level = False, restarted = False, events = []\<rparr>"

text \<open>\<^verbatim>\<open>begin()\<close>, named \<open>begin'\<close> here.\<close>

definition begin' :: "WiFiProvisionerConfig \<Rightarrow> tick_input \<Rightarrow> provisioner \<Rightarrow> bool \<times> provisioner" where
  "begin' cfg inp s =
     (let s1 = (if doubleRebootDetectEnabled cfg then checkDoubleReboot cfg inp s else s)
      in (True, s1\<lparr>state := STATE_LOAD_CONFIG\<rparr>))"

text \<open>
  \<^verbatim>\<open>loop()\<close>. A reset does not return from \<^verbatim>\<open>ESP.restart()\<close>, so nothing after
  it runs.
\<close>

definition loop ::
  "WiFiProvisionerConfig \<Rightarrow> (string \<Rightarrow> string) \<Rightarrow> tick_input \<Rightarrow> provisioner \<Rightarrow> provisioner" where
  "loop cfg H inp s =
     (let s1 = (if hardwareResetEnabled cfg then checkHardwareReset cfg inp s else s) in
      if restarted s1 then s1
      else
        let s2 = (if ledEnabled cfg then updateLED cfg inp s1 else s1) in
        case state s2 of
          STATE_INIT \<Rightarrow> handleStateInit s2
        | STATE_LOAD_CONFIG \<Rightarrow> handleStateLoadConfig inp s2
        | STATE_CONNECTING \<Rightarrow> handleStateConnecting cfg inp s2
        | STATE_CONNECTED \<Rightarrow> handleStateConnected cfg H inp s2
        | STATE_RETRY_WAIT \<Rightarrow> handleStateRetryWait cfg inp s2
        | STATE_PROVISIONING \<Rightarrow> handleStateProvisioning cfg inp s2
        | STATE_PROVISIONING_ACTIVE \<Rightarrow> handleStateProvisioningActive cfg H inp s2)"

text \<open>A run of the host loop: one call of \<open>loop\<close> per input, until the device restarts.\<close>

fun run ::
  "WiFiProvisionerConfig \<Rightarrow> (string \<Rightarrow> string) \<Rightarrow> tick_input list \<Rightarrow> provisioner \<Rightarrow> provisioner" where
  "run cfg H [] s = s"
| "run cfg H (inp # inps) s = (if restarted s then s else run cfg H inps (loop cfg H inp s))"

text \<open>
  The states the device can be in: after power-on (any flash content, any callbacks
  registered) and \<open>begin'\<close>, and after any further call of \<open>loop\<close> while it has not
  restarted. A restart is a new power-on with the flash content left behind.
\<close>

inductive reachable :: "WiFiProvisionerConfig \<Rightarrow> (string \<Rightarrow> string) \<Rightarrow> provisioner \<Rightarrow> bool"
  for cfg :: WiFiProvisionerConfig and H :: "string \<Rightarrow> string" where
  startup:
    "reachable cfg H (snd (begin' cfg inp
       ((ESP32_WiFiProvisioner flash)\<lparr>onConnectedCallback := c1, onFailedCallback := c2,
          onAPModeCallback := c3, onResetCallback := c4\<rparr>)))"
| tick:
    "reachable cfg H s \<Longrightarrow> \<not> restarted s \<Longrightarrow> reachable cfg H (loop cfg H inp s)"

section \<open>Configuration calls and sample values\<close>

text \<open>The defaults of \<^verbatim>\<open>WiFiProvisionerConfig()\<close> and the fluent setters used below.\<close>

definition default_config :: WiFiProvisionerConfig where
  "default_config =
     \<lparr>apName = ''ESP32-Config'', apPassword = [], apTimeout = 300000, maxRetries = 10,
      retryDelay = 3000, autoWipeOnMaxRetries = True, hardwareResetEnabled = False,
      resetButtonDuration = 5000, resetButtonActiveLow = True, httpResetEnabled = False,
      httpResetAuthRequired = False, ledEnabled = False, ledActiveLow = False,
      mdnsEnabled = False, mdnsName = ''esp32'', doubleRebootDetectEnabled = False,
      doubleRebootWindow = 10000\<rparr>"

definition enableHttpReset :: "bool \<Rightarrow> WiFiProvisionerConfig \<Rightarrow> WiFiProvisionerConfig" where
  "enableHttpReset enable cfg = cfg\<lparr>httpResetEnabled := enable, httpResetAuthRequired := False\<rparr>"

definition enableAuthenticatedHttpReset :: "bool \<Rightarrow> WiFiProvisionerConfig \<Rightarrow> WiFiProvisionerConfig" where
  "enableAuthenticatedHttpReset enable cfg =
     cfg\<lparr>httpResetEnabled := enable, httpResetAuthRequired := enable\<rparr>"

definition setMaxRetries :: "u8 \<Rightarrow> WiFiProvisionerConfig \<Rightarrow> WiFiProvisionerConfig" where
  "setMaxRetries retries cfg = cfg\<lparr>maxRetries := retries\<rparr>"

definition setAutoWipeOnMaxRetries :: "bool \<Rightarrow> WiFiProvisionerConfig \<Rightarrow> WiFiProvisionerConfig" where
  "setAutoWipeOnMaxRetries enable cfg = cfg\<lparr>autoWipeOnMaxRetries := enable\<rparr>"

definition enableDoubleRebootDetect :: "u32 \<Rightarrow> WiFiProvisionerConfig \<Rightarrow> WiFiProvisionerConfig" where
  "enableDoubleRebootDetect windowMs cfg =
     cfg\<lparr>doubleRebootDetectEnabled := True, doubleRebootWindow := windowMs\<rparr>"

text \<open>
  Sample inputs for the instances below: a tick in which nothing happens outside, a
  stand-in for the digest, two requests, a flash namespace holding credentials, and a
  device with cached credentials and reset digest.
\<close>

definition idle_input :: "u32 \<Rightarrow> tick_input" where
  "idle_input t =
     \<lparr>now = t, nvs_ok = True, join_ok = False, link_up = False, button_level = True,
      request = None, scan_found = Some [], mac = (0x24, 0x6F, 0x28, 0xAB, 0xCD, 0xEF),
      ap_ip = ''192.168.4.1'', local_ip = ''0.0.0.0''\<rparr>"

definition demo_digest :: "string \<Rightarrow> string" where
  "demo_digest p = ''#'' @ rev p"

definition post_reset :: "string \<Rightarrow> http_request" where
  "post_reset pw = \<lparr>uri = ''/reset'', http_method = HTTP_POST, args = [(''password'', pw)]\<rparr>"

definition post_save :: "string \<Rightarrow> string \<Rightarrow> string \<Rightarrow> http_request" where
  "post_save ssid pw rp =
     \<lparr>uri = ''/save'', http_method = HTTP_POST,
      args = [(''ssid'', ssid), (''password'', pw), (''reset_password'', rp)]\<rparr>"

definition flash_home :: nvs_store where
  "flash_home = [NVS_SSID \<mapsto> NvsStr ''home'', NVS_PASSWORD \<mapsto> NvsStr ''secret'']"

definition provisioned :: provisioner where
  "provisioned =
     (ESP32_WiFiProvisioner
        [NVS_SSID \<mapsto> NvsStr ''home'', NVS_PASSWORD \<mapsto> NvsStr ''secret'',
         NVS_RESET_PWD \<mapsto> NvsStr ''#nimda''])
       \<lparr>storedSSID := ''home'', storedPassword := ''secret'', resetPassword := ''#nimda'',
        onResetCallback := True\<rparr>"

section \<open>Invariant and scenarios\<close>

definition retry_inv :: "WiFiProvisionerConfig \<Rightarrow> provisioner \<Rightarrow> bool" where
  "retry_inv cfg s =
     (retryCount s \<le> maxRetries cfg \<and>
      (\<not> restarted s \<longrightarrow>
         (state s = STATE_INIT \<or> state s = STATE_LOAD_CONFIG \<or>
          state s = STATE_PROVISIONING \<or> state s = STATE_PROVISIONING_ACTIVE
            \<longrightarrow> storedSSID s = []) \<and>
         (state s \<noteq> STATE_PROVISIONING \<and> state s \<noteq> STATE_PROVISIONING_ACTIVE
            \<longrightarrow> retryCount s < maxRetries cfg)))"

definition demo_boot :: provisioner where
  "demo_boot =
     snd (begin' default_config (idle_input 0)
       ((ESP32_WiFiProvisioner flash_home)\<lparr>onConnectedCallback := False, onFailedCallback := True,
          onAPModeCallback := False, onResetCallback := False\<rparr>))"

definition button_idle :: "WiFiProvisionerConfig \<Rightarrow> tick_input \<Rightarrow> bool" where
  "button_idle cfg inp = (if resetButtonActiveLow cfg then button_level inp else \<not> button_level inp)"

text \<open>
  One failed connection attempt as the host loop sees it: the tick in which the join
  fails, any number of ticks taken before \<open>retryDelay\<close> has passed since, and the tick taken
  once it has passed. The reset button is not held during these ticks.
\<close>

record attempt =
  join_tick :: tick_input
  early_ticks :: "tick_input list"
  retry_tick :: tick_input

definition failed_attempt :: "WiFiProvisionerConfig \<Rightarrow> attempt \<Rightarrow> bool" where
  "failed_attempt cfg r =
     (\<not> join_ok (join_tick r) \<and>
      (\<forall>e\<in>set (early_ticks r). now e - now (join_tick r) < retryDelay cfg) \<and>
      retryDelay cfg \<le> now (retry_tick r) - now (join_tick r) \<and>
      (hardwareResetEnabled cfg \<longrightarrow>
         button_idle cfg (join_tick r) \<and> (\<forall>e\<in>set (early_ticks r). button_idle cfg e) \<and>
         button_idle cfg (retry_tick r)))"

fun attempts :: "attempt list \<Rightarrow> tick_input list" where
  "attempts [] = []"
| "attempts (r # rs) = join_tick r # early_ticks r @ retry_tick r # attempts rs"

definition retry_frame :: "provisioner \<Rightarrow> provisioner \<Rightarrow> bool" where
  "retry_frame s s' =
     (events s' = events s \<and> nvs s' = nvs s \<and> storedSSID s' = storedSSID s \<and>
      storedPassword s' = storedPassword s \<and> resetPassword s' = resetPassword s \<and>
      onFailedCallback s' = onFailedCallback s \<and> preferences s' = preferences s \<and>
      restarted s' = restarted s)"

definition connecting_device :: provisioner where
  "connecting_device =
     (ESP32_WiFiProvisioner flash_home)
       \<lparr>state := STATE_CONNECTING, storedSSID := ''home'', storedPassword := ''secret'',
        onFailedCallback := True\<rparr>"

definition three_failures :: "attempt list" where
  "three_failures =
     [\<lparr>join_tick = idle_input 10000, early_ticks = [idle_input 11000, idle_input 12000],
       retry_tick = idle_input 13000\<rparr>,
      \<lparr>join_tick = idle_input 23000, early_ticks = [], retry_tick = idle_input 26000\<rparr>,
      \<lparr>join_tick = idle_input 36000, early_ticks = [idle_input 38999],
       retry_tick = idle_input 39500\<rparr>]"

definition three_failures_flash_closed :: "attempt list" where
  "three_failures_flash_closed =
     [\<lparr>join_tick = idle_input 10000, early_ticks = [], retry_tick = idle_input 13000\<rparr>,
      \<lparr>join_tick = idle_input 23000, early_ticks = [], retry_tick = idle_input 26000\<rparr>,
      \<lparr>join_tick = idle_input 36000, early_ticks = [],
       retry_tick = (idle_input 39500)\<lparr>nvs_ok := False\<rparr>\<rparr>]"

definition unprovisioned_boot :: provisioner where
  "unprovisioned_boot = snd (begin' default_config (idle_input 0) (ESP32_WiFiProvisioner Map.empty))"

definition portal_open :: provisioner where
  "portal_open = run default_config demo_digest [idle_input 10, idle_input 20] unprovisioned_boot"

definition double_reboot_config :: WiFiProvisionerConfig where
  "double_reboot_config = enableDoubleRebootDetect 10000 default_config"

definition first_boot :: provisioner where
  "first_boot = snd (begin' double_reboot_config (idle_input 100) (ESP32_WiFiProvisioner flash_home))"

definition second_boot :: provisioner where
  "second_boot = snd (begin' double_reboot_config (idle_input 200) (ESP32_WiFiProvisioner (nvs first_boot)))"

definition quoted_network :: network where
  "quoted_network = \<lparr>net_ssid = ''a\"},{\"ssid\":\"b'', net_rssi = - 50, net_open = False\<rparr>"

definition auth_reset_config :: WiFiProvisionerConfig where
  "auth_reset_config = enableAuthenticatedHttpReset True default_config"

definition flash_with_digest :: nvs_store where
  "flash_with_digest =
     [NVS_SSID \<mapsto> NvsStr ''home'', NVS_PASSWORD \<mapsto> NvsStr ''secret'',
      NVS_RESET_PWD \<mapsto> NvsStr (demo_digest ''admin'')]"

definition connected_device :: provisioner where
  "connected_device =
     run auth_reset_config demo_digest
       [idle_input 10, (idle_input 20)\<lparr>join_ok := True, link_up := True\<rparr>]
       (snd (begin' auth_reset_config (idle_input 0) (ESP32_WiFiProvisioner flash_with_digest)))"

section \<open>Properties of the credential store\<close>

lemmas store_defs = prefs_begin_def prefs_end_def prefs_getString_def prefs_getUInt_def
  prefs_put_def prefs_clear_def

lemma saveCredentials_opened:
  "ok \<Longrightarrow> \<not> started (preferences s) \<Longrightarrow>
   saveCredentials ok ssid pw s =
     (True, s\<lparr>preferences := \<lparr>started = False, readOnly = False\<rparr>,
              nvs := (nvs s)(NVS_SSID \<mapsto> NvsStr ssid, NVS_PASSWORD \<mapsto> NvsStr pw),
              storedSSID := ssid, storedPassword := pw\<rparr>)"
  by (simp add: saveCredentials_def store_defs Let_def)

lemma saveCredentials_refused:
  "\<not> ok \<or> started (preferences s) \<Longrightarrow>
   fst (saveCredentials ok ssid pw s) = False \<and>
   nvs (snd (saveCredentials ok ssid pw s)) = nvs s \<and>
   storedSSID (snd (saveCredentials ok ssid pw s)) = storedSSID s \<and>
   storedPassword (snd (saveCredentials ok ssid pw s)) = storedPassword s \<and>
   resetPassword (snd (saveCredentials ok ssid pw s)) = resetPassword s \<and>
   events (snd (saveCredentials ok ssid pw s)) = events s \<and>
   restarted (snd (saveCredentials ok ssid pw s)) = restarted s"
  by (auto simp add: saveCredentials_def store_defs Let_def)

lemma saveCredentials_True_iff:
  "fst (saveCredentials ok ssid pw s) \<longleftrightarrow> ok \<and> \<not> started (preferences s)"
  by (auto simp add: saveCredentials_def store_defs Let_def)

text \<open>
  C6, as amended. After a save that succeeded, a load that can open the namespace reads
  back exactly the saved ssid and secret, from the cache left by the save as well as
  on a freshly constructed object over the same flash; it reports credentials present
  exactly when the ssid is not empty.
\<close>

theorem saveCredentials_then_loadCredentials:
  assumes "fst (saveCredentials ok ssid secret s)"
  shows "fst (loadCredentials True (snd (saveCredentials ok ssid secret s))) = (ssid \<noteq> []) \<and>
         storedSSID (snd (loadCredentials True (snd (saveCredentials ok ssid secret s)))) = ssid \<and>
         storedPassword (snd (loadCredentials True (snd (saveCredentials ok ssid secret s)))) = secret \<and>
         fst (loadCredentials True
               (ESP32_WiFiProvisioner (nvs (snd (saveCredentials ok ssid secret s))))) = (ssid \<noteq> []) \<and>
         storedSSID (snd (loadCredentials True
               (ESP32_WiFiProvisioner (nvs (snd (saveCredentials ok ssid secret s)))))) = ssid \<and>
         storedPassword (snd (loadCredentials True
               (ESP32_WiFiProvisioner (nvs (snd (saveCredentials ok ssid secret s)))))) = secret"
proof -
  from assms have o: "ok" and c: "\<not> started (preferences s)"
    by (simp_all add: saveCredentials_True_iff)
  show ?thesis
    by (simp add: saveCredentials_opened [OF o c] loadCredentials_def store_defs Let_def
        ESP32_WiFiProvisioner_def)
qed

theorem saveCredentials_then_loadCredentials_witness:
  "fst (loadCredentials True
     (snd (saveCredentials True ''home'' ''secret'' (ESP32_WiFiProvisioner Map.empty)))) \<and>
   storedSSID (snd (loadCredentials True
     (snd (saveCredentials True ''home'' ''secret'' (ESP32_WiFiProvisioner Map.empty))))) = ''home'' \<and>
   storedPassword (snd (loadCredentials True
     (snd (saveCredentials True ''home'' ''secret'' (ESP32_WiFiProvisioner Map.empty))))) = ''secret''"
proof -
  have h: "fst (saveCredentials True ''home'' ''secret'' (ESP32_WiFiProvisioner Map.empty))"
    by (simp add: saveCredentials_def store_defs Let_def ESP32_WiFiProvisioner_def)
  show ?thesis
    using saveCredentials_then_loadCredentials [OF h] by simp
qed

text \<open>
  The claim as stated fails for the empty ssid: the save succeeds and the load that
  follows reports that no credentials are present.
\<close>

theorem load_after_save_empty_ssid:
  "fst (saveCredentials True [] ''secret'' (ESP32_WiFiProvisioner Map.empty)) \<and>
   \<not> fst (loadCredentials True
          (snd (saveCredentials True [] ''secret'' (ESP32_WiFiProvisioner Map.empty))))"
  by (simp add: saveCredentials_def loadCredentials_def store_defs Let_def
      ESP32_WiFiProvisioner_def)

lemma clearAllCredentials_fields:
  "storedSSID (clearAllCredentials ok s) = [] \<and>
   storedPassword (clearAllCredentials ok s) = [] \<and>
   resetPassword (clearAllCredentials ok s) = [] \<and>
   nvs (clearAllCredentials ok s) = (if ok \<and> \<not> started (preferences s) then Map.empty else nvs s) \<and>
   started (preferences (clearAllCredentials ok s)) = started (preferences s) \<and>
   events (clearAllCredentials ok s) = events s \<and>
   restarted (clearAllCredentials ok s) = restarted s \<and>
   state (clearAllCredentials ok s) = state s \<and>
   retryCount (clearAllCredentials ok s) = retryCount s \<and>
   onResetCallback (clearAllCredentials ok s) = onResetCallback s"
  by (simp add: clearAllCredentials_def store_defs Let_def)

text \<open>
  C7, as amended. When the namespace cannot be opened, \<open>saveCredentials\<close> (and
  \<open>setCredentials\<close> on top of it) returns false and leaves flash and cache as they were,
  and \<open>loadCredentials\<close> returns false, which the state machine reads as no credentials.
  The erase operations do not report the failure: \<open>clearAllCredentials\<close> has no result,
  leaves the flash untouched and still empties the cached values, and
  \<open>clearCredentials\<close> returns true.
\<close>

theorem storage_open_failure:
  assumes "\<not> ok"
  shows "fst (saveCredentials ok ssid secret s) = False \<and>
         nvs (snd (saveCredentials ok ssid secret s)) = nvs s \<and>
         storedSSID (snd (saveCredentials ok ssid secret s)) = storedSSID s \<and>
         storedPassword (snd (saveCredentials ok ssid secret s)) = storedPassword s \<and>
         fst (setCredentials ok ssid secret reboot s) = False \<and>
         fst (loadCredentials ok s) = False \<and>
         nvs (clearAllCredentials ok s) = nvs s \<and>
         storedSSID (clearAllCredentials ok s) = [] \<and>
         storedPassword (clearAllCredentials ok s) = [] \<and>
         resetPassword (clearAllCredentials ok s) = [] \<and>
         fst (clearCredentials ok reboot s) = True \<and>
         nvs (snd (clearCredentials ok reboot s)) = nvs s"
proof -
  have sv: "fst (saveCredentials ok ssid secret s) = False"
    using assms saveCredentials_refused [of ok s ssid secret] by simp
  have "fst (setCredentials ok ssid secret reboot s) = False"
    using sv by (cases "saveCredentials ok ssid secret s") (auto simp add: setCredentials_def)
  moreover have "fst (loadCredentials ok s) = False"
    using assms by (simp add: loadCredentials_def store_defs Let_def)
  moreover have "nvs (snd (clearCredentials ok reboot s)) = nvs s"
    using assms by (simp add: clearCredentials_def clearAllCredentials_fields ESP_restart_def emit_def Let_def)
  moreover have "fst (clearCredentials ok reboot s) = True"
    by (simp add: clearCredentials_def Let_def)
  ultimately show ?thesis
    using assms sv saveCredentials_refused [of ok s ssid secret] clearAllCredentials_fields [of ok s]
    by simp
qed

theorem storage_open_failure_witness:
  "fst (saveCredentials False ''new'' ''pw'' (ESP32_WiFiProvisioner flash_home)) = False \<and>
   nvs (snd (saveCredentials False ''new'' ''pw'' (ESP32_WiFiProvisioner flash_home))) NVS_SSID = Some (NvsStr ''home'') \<and>
   fst (loadCredentials False (ESP32_WiFiProvisioner flash_home)) = False \<and>
   nvs (clearAllCredentials False (ESP32_WiFiProvisioner flash_home)) NVS_SSID = Some (NvsStr ''home'')"
proof -
  have h: "\<not> False" by simp
  show ?thesis
    using storage_open_failure [OF h, of "''new''" "''pw''" "ESP32_WiFiProvisioner flash_home" False]
    by (simp add: ESP32_WiFiProvisioner_def flash_home_def)
qed

text \<open>
  The claim as stated fails for the erase: with the namespace closed to it,
  \<open>clearCredentials\<close> answers true while the credentials stay in flash.
\<close>

theorem clearCredentials_hides_open_failure:
  "fst (clearCredentials False False (ESP32_WiFiProvisioner flash_home)) = True \<and>
   nvs (snd (clearCredentials False False (ESP32_WiFiProvisioner flash_home))) NVS_SSID = Some (NvsStr ''home'')"
  by (simp add: clearCredentials_def clearAllCredentials_def store_defs Let_def
      ESP32_WiFiProvisioner_def flash_home_def)

section \<open>Properties of the web handlers\<close>

text \<open>
  C10. A \<^verbatim>\<open>POST /save\<close> with a non-empty ssid, when the namespace cannot be opened
  for writing, is answered 500; no restart is triggered, and the flash namespace and the
  cached credentials and reset digest are as before.
\<close>

theorem handleSave_storage_failure:
  assumes "arg req ''ssid'' \<noteq> []" and "\<not> nvs_ok inp"
  shows "events (handleSave cfg H inp req s) =
           events s @ [Send 500 ''text/plain'' ''Failed to save credentials''] \<and>
         restarted (handleSave cfg H inp req s) = restarted s \<and>
         nvs (handleSave cfg H inp req s) = nvs s \<and>
         storedSSID (handleSave cfg H inp req s) = storedSSID s \<and>
         storedPassword (handleSave cfg H inp req s) = storedPassword s \<and>
         resetPassword (handleSave cfg H inp req s) = resetPassword s"
proof -
  obtain b s1 where sv: "saveCredentials (nvs_ok inp) (arg req ''ssid'') (arg req ''password'') s = (b, s1)"
    by (cases "saveCredentials (nvs_ok inp) (arg req ''ssid'') (arg req ''password'') s")
  from assms(2) saveCredentials_refused [of "nvs_ok inp" s "arg req ''ssid''" "arg req ''password''"] sv
  have r: "\<not> b" "nvs s1 = nvs s" "storedSSID s1 = storedSSID s" "storedPassword s1 = storedPassword s"
     "resetPassword s1 = resetPassword s" "events s1 = events s" "restarted s1 = restarted s"
    by simp_all
  have "handleSave cfg H inp req s = emit (Send 500 ''text/plain'' ''Failed to save credentials'') s1"
    using assms(1) sv r(1) by (simp add: handleSave_def Let_def)
  then show ?thesis using r by (simp add: emit_def)
qed

theorem handleSave_storage_failure_witness:
  "events (handleSave default_config demo_digest ((idle_input 5000)\<lparr>nvs_ok := False\<rparr>)
             (post_save ''new'' ''pw'' []) (ESP32_WiFiProvisioner flash_home)) =
     [Send 500 ''text/plain'' ''Failed to save credentials''] \<and>
   nvs (handleSave default_config demo_digest ((idle_input 5000)\<lparr>nvs_ok := False\<rparr>)
             (post_save ''new'' ''pw'' []) (ESP32_WiFiProvisioner flash_home)) = flash_home \<and>
   \<not> restarted (handleSave default_config demo_digest ((idle_input 5000)\<lparr>nvs_ok := False\<rparr>)
             (post_save ''new'' ''pw'' []) (ESP32_WiFiProvisioner flash_home))"
proof -
  have a: "arg (post_save ''new'' ''pw'' []) ''ssid'' \<noteq> []"
    by (simp add: arg_def post_save_def)
  have b: "\<not> nvs_ok ((idle_input 5000)\<lparr>nvs_ok := False\<rparr>)"
    by (simp add: idle_input_def)
  show ?thesis
    using handleSave_storage_failure [OF a b, of default_config demo_digest "ESP32_WiFiProvisioner flash_home"]
    by (simp add: ESP32_WiFiProvisioner_def)
qed

lemma saveResetPassword_opened:
  "ok \<Longrightarrow> \<not> started (preferences s) \<Longrightarrow>
   saveResetPassword H ok password s =
     (True, s\<lparr>preferences := \<lparr>started = False, readOnly = False\<rparr>,
              nvs := (nvs s)(NVS_RESET_PWD \<mapsto> NvsStr (H password)),
              resetPassword := H password\<rparr>)"
  by (simp add: saveResetPassword_def hashPassword_def store_defs Let_def)

text \<open>
  C5, as amended. A \<^verbatim>\<open>POST /save\<close> with an empty ssid is answered 400 and changes
  nothing else. With a non-empty ssid, when the namespace opens for writing, the ssid and
  password are written to flash and cached, the digest of the reset password is written
  exactly when one was supplied and authenticated reset is enabled, and the handler
  answers 200, waits 2000 ms and restarts.
\<close>

theorem handleSave_validates_then_persists:
  "(arg req ''ssid'' = [] \<longrightarrow>
      handleSave cfg H inp req s =
        s\<lparr>events := events s @ [Send 400 ''text/plain'' ''SSID is required'']\<rparr>) \<and>
   (arg req ''ssid'' \<noteq> [] \<and> nvs_ok inp \<and> \<not> started (preferences s) \<longrightarrow>
      nvs (handleSave cfg H inp req s) =
        (if httpResetAuthRequired cfg \<and> arg req ''reset_password'' \<noteq> []
         then (nvs s)(NVS_SSID \<mapsto> NvsStr (arg req ''ssid''),
                      NVS_PASSWORD \<mapsto> NvsStr (arg req ''password''),
                      NVS_RESET_PWD \<mapsto> NvsStr (H (arg req ''reset_password'')))
         else (nvs s)(NVS_SSID \<mapsto> NvsStr (arg req ''ssid''),
                      NVS_PASSWORD \<mapsto> NvsStr (arg req ''password''))) \<and>
      storedSSID (handleSave cfg H inp req s) = arg req ''ssid'' \<and>
      storedPassword (handleSave cfg H inp req s) = arg req ''password'' \<and>
      events (handleSave cfg H inp req s) =
        events s @ [Send 200 ''text/plain'' ''Configuration saved. Rebooting...'',
                    Delay 2000, Restart] \<and>
      restarted (handleSave cfg H inp req s))"
proof (intro conjI impI)
  assume "arg req ''ssid'' = []"
  then show "handleSave cfg H inp req s =
        s\<lparr>events := events s @ [Send 400 ''text/plain'' ''SSID is required'']\<rparr>"
    by (simp add: handleSave_def emit_def Let_def)
next
  assume a: "arg req ''ssid'' \<noteq> [] \<and> nvs_ok inp \<and> \<not> started (preferences s)"
  then have sv: "saveCredentials (nvs_ok inp) (arg req ''ssid'') (arg req ''password'') s =
     (True, s\<lparr>preferences := \<lparr>started = False, readOnly = False\<rparr>,
              nvs := (nvs s)(NVS_SSID \<mapsto> NvsStr (arg req ''ssid''), NVS_PASSWORD \<mapsto> NvsStr (arg req ''password'')),
              storedSSID := arg req ''ssid'', storedPassword := arg req ''password''\<rparr>)"
    by (simp add: saveCredentials_opened)
  have e: "handleSave cfg H inp req s =
     ESP_restart (emit (Delay 2000) (emit (Send 200 ''text/plain'' ''Configuration saved. Rebooting...'')
       (if httpResetAuthRequired cfg \<and> arg req ''reset_password'' \<noteq> []
        then snd (saveResetPassword H (nvs_ok inp) (arg req ''reset_password'')
               (s\<lparr>preferences := \<lparr>started = False, readOnly = False\<rparr>,
              nvs := (nvs s)(NVS_SSID \<mapsto> NvsStr (arg req ''ssid''), NVS_PASSWORD \<mapsto> NvsStr (arg req ''password'')),
              storedSSID := arg req ''ssid'', storedPassword := arg req ''password''\<rparr>))
        else s\<lparr>preferences := \<lparr>started = False, readOnly = False\<rparr>,
              nvs := (nvs s)(NVS_SSID \<mapsto> NvsStr (arg req ''ssid''), NVS_PASSWORD \<mapsto> NvsStr (arg req ''password'')),
              storedSSID := arg req ''ssid'', storedPassword := arg req ''password''\<rparr>)))"
    using a unfolding handleSave_def Let_def sv by simp
  show "nvs (handleSave cfg H inp req s) =
        (if httpResetAuthRequired cfg \<and> arg req ''reset_password'' \<noteq> []
         then (nvs s)(NVS_SSID \<mapsto> NvsStr (arg req ''ssid''),
                      NVS_PASSWORD \<mapsto> NvsStr (arg req ''password''),
                      NVS_RESET_PWD \<mapsto> NvsStr (H (arg req ''reset_password'')))
         else (nvs s)(NVS_SSID \<mapsto> NvsStr (arg req ''ssid''),
                      NVS_PASSWORD \<mapsto> NvsStr (arg req ''password'')))"
    using a by (simp add: e saveResetPassword_opened ESP_restart_def emit_def)
  show "storedSSID (handleSave cfg H inp req s) = arg req ''ssid''"
    using a by (simp add: e saveResetPassword_opened ESP_restart_def emit_def)
  show "storedPassword (handleSave cfg H inp req s) = arg req ''password''"
    using a by (simp add: e saveResetPassword_opened ESP_restart_def emit_def)
  show "events (handleSave cfg H inp req s) =
        events s @ [Send 200 ''text/plain'' ''Configuration saved. Rebooting...'',
                    Delay 2000, Restart]"
    using a by (simp add: e saveResetPassword_opened ESP_restart_def emit_def)
  show "restarted (handleSave cfg H inp req s)"
    by (simp add: e ESP_restart_def)
qed

theorem handleSave_validates_then_persists_witness:
  "nvs (handleSave (enableAuthenticatedHttpReset True default_config) demo_digest (idle_input 5000)
          (post_save ''home'' ''secret'' ''admin'') (ESP32_WiFiProvisioner Map.empty)) =
     [NVS_SSID \<mapsto> NvsStr ''home'', NVS_PASSWORD \<mapsto> NvsStr ''secret'',
      NVS_RESET_PWD \<mapsto> NvsStr ''#nimda''] \<and>
   restarted (handleSave (enableAuthenticatedHttpReset True default_config) demo_digest (idle_input 5000)
          (post_save ''home'' ''secret'' ''admin'') (ESP32_WiFiProvisioner Map.empty)) \<and>
   handleSave default_config demo_digest (idle_input 5000)
          (post_save [] ''secret'' []) (ESP32_WiFiProvisioner flash_home) =
     (ESP32_WiFiProvisioner flash_home)\<lparr>events := [Send 400 ''text/plain'' ''SSID is required'']\<rparr>"
proof -
  have a: "arg (post_save ''home'' ''secret'' ''admin'') ''ssid'' \<noteq> [] \<and> nvs_ok (idle_input 5000) \<and>
           \<not> started (preferences (ESP32_WiFiProvisioner Map.empty))"
    by (simp add: arg_def post_save_def idle_input_def ESP32_WiFiProvisioner_def)
  have b: "arg (post_save [] ''secret'' []) ''ssid'' = []"
    by (simp add: arg_def post_save_def)
  show ?thesis
    using a b
      handleSave_validates_then_persists [of "post_save ''home'' ''secret'' ''admin''"
        "enableAuthenticatedHttpReset True default_config" demo_digest "idle_input 5000"
        "ESP32_WiFiProvisioner Map.empty"]
      handleSave_validates_then_persists [of "post_save [] ''secret'' []"
        default_config demo_digest "idle_input 5000" "ESP32_WiFiProvisioner flash_home"]
    by (simp add: arg_def post_save_def enableAuthenticatedHttpReset_def default_config_def
        demo_digest_def ESP32_WiFiProvisioner_def)
qed

text \<open>
  The claim as stated, for every request with a non-empty ssid, fails when the namespace
  does not open: the request below carries ssid, password and reset password, and is
  answered 500 with nothing written, nothing cached and no restart.
\<close>

theorem handleSave_nothing_persisted_when_flash_closed:
  "arg (post_save ''home'' ''secret'' ''admin'') ''ssid'' = ''home'' \<and>
   events (handleSave (enableAuthenticatedHttpReset True default_config) demo_digest
             ((idle_input 5000)\<lparr>nvs_ok := False\<rparr>)
             (post_save ''home'' ''secret'' ''admin'') (ESP32_WiFiProvisioner Map.empty)) =
     [Send 500 ''text/plain'' ''Failed to save credentials''] \<and>
   nvs (handleSave (enableAuthenticatedHttpReset True default_config) demo_digest
             ((idle_input 5000)\<lparr>nvs_ok := False\<rparr>)
             (post_save ''home'' ''secret'' ''admin'') (ESP32_WiFiProvisioner Map.empty)) = Map.empty \<and>
   storedSSID (handleSave (enableAuthenticatedHttpReset True default_config) demo_digest
             ((idle_input 5000)\<lparr>nvs_ok := False\<rparr>)
             (post_save ''home'' ''secret'' ''admin'') (ESP32_WiFiProvisioner Map.empty)) = [] \<and>
   \<not> restarted (handleSave (enableAuthenticatedHttpReset True default_config) demo_digest
             ((idle_input 5000)\<lparr>nvs_ok := False\<rparr>)
             (post_save ''home'' ''secret'' ''admin'') (ESP32_WiFiProvisioner Map.empty))"
  by (simp add: handleSave_def saveCredentials_def store_defs arg_def post_save_def
      idle_input_def emit_def ESP32_WiFiProvisioner_def Let_def)

lemma performReset_fields:
  "events (performReset ok s) =
     events s @ (if onResetCallback s then [OnReset] else []) @ [Delay 500, Restart] \<and>
   restarted (performReset ok s) \<and>
   storedSSID (performReset ok s) = [] \<and>
   storedPassword (performReset ok s) = [] \<and>
   resetPassword (performReset ok s) = [] \<and>
   nvs (performReset ok s) = (if ok \<and> \<not> started (preferences s) then Map.empty else nvs s) \<and>
   state (performReset ok s) = state s \<and>
   retryCount (performReset ok s) = retryCount s"
  by (auto simp add: performReset_def clearAllCredentials_fields ESP_restart_def emit_def Let_def)

text \<open>
  The reset handler taken alone, with HTTP reset enabled: when authentication is required
  and the password is empty or its digest differs from the member \<open>resetPassword\<close>, it
  answers 401 and changes nothing else; when authentication is not required, or the
  digest equals the member, it answers 200, fires the reset callback (if one is
  registered), empties the cached credentials and digest, erases the flash namespace
  (when it opens) and restarts.
\<close>

theorem handleReset_authenticates:
  assumes "httpResetEnabled cfg"
  shows "(httpResetAuthRequired cfg \<and>
            (arg req ''password'' = [] \<or> H (arg req ''password'') \<noteq> resetPassword s) \<longrightarrow>
          handleReset cfg H inp req s =
            s\<lparr>events := events s @
                 [Send 401 ''text/plain''
                    (if arg req ''password'' = [] then ''Password required'' else ''Invalid password'')]\<rparr>) \<and>
         (\<not> httpResetAuthRequired cfg \<or>
            (arg req ''password'' \<noteq> [] \<and> H (arg req ''password'') = resetPassword s) \<longrightarrow>
          events (handleReset cfg H inp req s) =
            events s @ [Send 200 ''text/plain'' ''Resetting device...'', Delay 1000] @
              (if onResetCallback s then [OnReset] else []) @ [Delay 500, Restart] \<and>
          restarted (handleReset cfg H inp req s) \<and>
          storedSSID (handleReset cfg H inp req s) = [] \<and>
          storedPassword (handleReset cfg H inp req s) = [] \<and>
          resetPassword (handleReset cfg H inp req s) = [] \<and>
          (nvs_ok inp \<and> \<not> started (preferences s) \<longrightarrow> nvs (handleReset cfg H inp req s) = Map.empty))"
proof (intro conjI impI)
  assume "httpResetAuthRequired cfg \<and>
            (arg req ''password'' = [] \<or> H (arg req ''password'') \<noteq> resetPassword s)"
  then show "handleReset cfg H inp req s =
            s\<lparr>events := events s @
                 [Send 401 ''text/plain''
                    (if arg req ''password'' = [] then ''Password required'' else ''Invalid password'')]\<rparr>"
    using assms
    by (auto simp add: handleReset_def verifyPassword_def hashPassword_def emit_def Let_def)
next
  assume g: "\<not> httpResetAuthRequired cfg \<or>
            (arg req ''password'' \<noteq> [] \<and> H (arg req ''password'') = resetPassword s)"
  then have e: "handleReset cfg H inp req s =
      performReset (nvs_ok inp) (emit (Delay 1000) (emit (Send 200 ''text/plain'' ''Resetting device...'') s))"
    using assms
    by (auto simp add: handleReset_def verifyPassword_def hashPassword_def Let_def)
  show "events (handleReset cfg H inp req s) =
            events s @ [Send 200 ''text/plain'' ''Resetting device...'', Delay 1000] @
              (if onResetCallback s then [OnReset] else []) @ [Delay 500, Restart]"
    by (simp add: e performReset_fields emit_def)
  show "restarted (handleReset cfg H inp req s)"
    by (simp add: e performReset_fields)
  show "storedSSID (handleReset cfg H inp req s) = []"
    by (simp add: e performReset_fields)
  show "storedPassword (handleReset cfg H inp req s) = []"
    by (simp add: e performReset_fields)
  show "resetPassword (handleReset cfg H inp req s) = []"
    by (simp add: e performReset_fields)
  show "nvs (handleReset cfg H inp req s) = Map.empty" if "nvs_ok inp \<and> \<not> started (preferences s)"
    using that by (simp add: e performReset_fields emit_def)
qed

theorem handleReset_authenticates_witness:
  "handleReset (enableAuthenticatedHttpReset True default_config) demo_digest (idle_input 9000)
     (post_reset ''guess'') provisioned =
     provisioned\<lparr>events := [Send 401 ''text/plain'' ''Invalid password'']\<rparr> \<and>
   events (handleReset (enableAuthenticatedHttpReset True default_config) demo_digest (idle_input 9000)
     (post_reset ''admin'') provisioned) =
     [Send 200 ''text/plain'' ''Resetting device...'', Delay 1000, OnReset, Delay 500, Restart] \<and>
   nvs (handleReset (enableAuthenticatedHttpReset True default_config) demo_digest (idle_input 9000)
     (post_reset ''admin'') provisioned) = Map.empty \<and>
   restarted (handleReset (enableHttpReset True default_config) demo_digest (idle_input 9000)
     (post_reset []) provisioned)"
proof -
  have a: "httpResetEnabled (enableAuthenticatedHttpReset True default_config)"
    by (simp add: enableAuthenticatedHttpReset_def)
  have b: "httpResetEnabled (enableHttpReset True default_config)"
    by (simp add: enableHttpReset_def)
  show ?thesis
    using handleReset_authenticates [OF a, of "post_reset ''guess''" demo_digest provisioned "idle_input 9000"]
      handleReset_authenticates [OF a, of "post_reset ''admin''" demo_digest provisioned "idle_input 9000"]
      handleReset_authenticates [OF b, of "post_reset []" demo_digest provisioned "idle_input 9000"]
    by (simp add: arg_def post_reset_def enableAuthenticatedHttpReset_def enableHttpReset_def
        default_config_def demo_digest_def provisioned_def ESP32_WiFiProvisioner_def idle_input_def)
qed

section \<open>Properties of the state machine\<close>

text \<open>
  What each handler leaves alone. A web handler keeps the state and the retry counter,
  and it keeps the cached ssid unless it restarts the device.
\<close>

lemma handleSave_frame:
  "state (handleSave cfg H inp req s) = state s \<and>
   retryCount (handleSave cfg H inp req s) = retryCount s \<and>
   (restarted (handleSave cfg H inp req s) \<or>
    storedSSID (handleSave cfg H inp req s) = storedSSID s \<and>
    restarted (handleSave cfg H inp req s) = restarted s)"
  by (simp add: handleSave_def saveCredentials_def saveResetPassword_def store_defs
      Let_def emit_def ESP_restart_def)

lemma handleReset_frame:
  "state (handleReset cfg H inp req s) = state s \<and>
   retryCount (handleReset cfg H inp req s) = retryCount s \<and>
   (restarted (handleReset cfg H inp req s) \<or>
    storedSSID (handleReset cfg H inp req s) = storedSSID s \<and>
    restarted (handleReset cfg H inp req s) = restarted s)"
  by (simp add: handleReset_def performReset_fields emit_def Let_def split: option.splits)

lemma run_handler_frame:
  "state (run_handler cfg H inp req h s) = state s \<and>
   retryCount (run_handler cfg H inp req h s) = retryCount s \<and>
   (restarted (run_handler cfg H inp req h s) \<or>
    storedSSID (run_handler cfg H inp req h s) = storedSSID s \<and>
    restarted (run_handler cfg H inp req h s) = restarted s)"
proof (cases h)
  case H_Save
  then show ?thesis using handleSave_frame [of cfg H inp req s] by (simp add: run_handler_def)
next
  case H_Reset
  then show ?thesis using handleReset_frame [of cfg H inp req s] by (simp add: run_handler_def)
qed (simp_all add: run_handler_def handleRoot_def handleScan_def handleSaveGet_def
       handleNotFound_def handleStatus_def emit_def Let_def)

lemma handleClient_frame:
  "state (handleClient cfg H inp s) = state s \<and>
   retryCount (handleClient cfg H inp s) = retryCount s \<and>
   (restarted (handleClient cfg H inp s) \<or>
    storedSSID (handleClient cfg H inp s) = storedSSID s \<and>
    restarted (handleClient cfg H inp s) = restarted s)"
  using run_handler_frame [of cfg H inp _ _ s]
  by (simp add: handleClient_def emit_def split: option.splits prod.splits)

lemma checkHardwareReset_frame:
  "state (checkHardwareReset cfg inp s) = state s \<and>
   retryCount (checkHardwareReset cfg inp s) = retryCount s \<and>
   (restarted (checkHardwareReset cfg inp s) \<or>
    storedSSID (checkHardwareReset cfg inp s) = storedSSID s \<and>
    restarted (checkHardwareReset cfg inp s) = restarted s)"
  by (simp add: checkHardwareReset_def performReset_fields Let_def)

lemma updateLED_frame:
  "updateLED cfg inp s = s\<lparr>led_level := led_level (updateLED cfg inp s)\<rparr>"
  by (simp add: updateLED_def Let_def)

text \<open>
  The invariant behind the bound on the retry counter: the counter is strictly below
  \<open>maxRetries\<close> outside the two provisioning states, and no ssid is cached before the
  credentials are loaded and while provisioning, so the portal timeout cannot lead back to
  \<open>STATE_CONNECTING\<close> with a counter that was not reset.
\<close>

lemma retry_inv_restarted:
  "restarted s \<Longrightarrow> retry_inv cfg s \<longleftrightarrow> retryCount s \<le> maxRetries cfg"
  by (simp add: retry_inv_def)

lemma retry_inv_same:
  "retry_inv cfg s \<Longrightarrow> state s' = state s \<Longrightarrow> retryCount s' = retryCount s \<Longrightarrow>
   restarted s' \<or> storedSSID s' = storedSSID s \<and> restarted s' = restarted s \<Longrightarrow>
   retry_inv cfg s'"
  by (auto simp add: retry_inv_def)

lemma stopProvisioningMode_fields:
  "state (stopProvisioningMode s) = state s \<and>
   retryCount (stopProvisioningMode s) = retryCount s \<and>
   storedSSID (stopProvisioningMode s) = storedSSID s \<and>
   restarted (stopProvisioningMode s) = restarted s \<and>
   events (stopProvisioningMode s) = events s \<and>
   nvs (stopProvisioningMode s) = nvs s \<and>
   softAP_up (stopProvisioningMode s) = None \<and>
   webServer (stopProvisioningMode s) = None \<and>
   dnsServer (stopProvisioningMode s) = (if dnsServer s = None then None else Some False)"
  by (simp add: stopProvisioningMode_def stopWebServer_def Let_def split: option.splits)

lemma startProvisioningMode_fields:
  "state (startProvisioningMode cfg inp s) = state s \<and>
   retryCount (startProvisioningMode cfg inp s) = retryCount s \<and>
   storedSSID (startProvisioningMode cfg inp s) = storedSSID s \<and>
   restarted (startProvisioningMode cfg inp s) = restarted s"
  by (simp add: startProvisioningMode_def disconnectWiFi_def stopWebServer_def
      loadResetPassword_def setupWebServerProvisioningMode_def store_defs emit_def Let_def
      split: option.splits)

lemma handleStateRetryWait_inv:
  assumes "1 \<le> maxRetries cfg" "retryCount s < maxRetries cfg" "\<not> restarted s"
    "state s = STATE_RETRY_WAIT"
  shows "retry_inv cfg (handleStateRetryWait cfg inp s)"
proof -
  have le: "retryCount s + 1 \<le> maxRetries cfg" using assms(2) by (rule inc_le)
  have pos: "0 < maxRetries cfg" using assms(1) by (simp add: word_less_nat_alt word_le_nat_alt)
  show ?thesis
    using assms le pos
    by (auto simp add: handleStateRetryWait_def retry_inv_def clearAllCredentials_fields
        emit_def Let_def)
qed

lemma loop_retry_inv:
  assumes m: "1 \<le> maxRetries cfg" and i: "retry_inv cfg s" and r: "\<not> restarted s"
  shows "retry_inv cfg (loop cfg H inp s)"
proof -
  define s1 where "s1 = (if hardwareResetEnabled cfg then checkHardwareReset cfg inp s else s)"
  define s2 where "s2 = (if ledEnabled cfg then updateLED cfg inp s1 else s1)"
  have i1: "retry_inv cfg s1"
    using i checkHardwareReset_frame [of cfg inp s] retry_inv_same [OF i, of "checkHardwareReset cfg inp s"]
    by (simp add: s1_def)
  have l: "loop cfg H inp s =
     (if restarted s1 then s1 else
        case state s2 of
          STATE_INIT \<Rightarrow> handleStateInit s2
        | STATE_LOAD_CONFIG \<Rightarrow> handleStateLoadConfig inp s2
        | STATE_CONNECTING \<Rightarrow> handleStateConnecting cfg inp s2
        | STATE_CONNECTED \<Rightarrow> handleStateConnected cfg H inp s2
        | STATE_RETRY_WAIT \<Rightarrow> handleStateRetryWait cfg inp s2
        | STATE_PROVISIONING \<Rightarrow> handleStateProvisioning cfg inp s2
        | STATE_PROVISIONING_ACTIVE \<Rightarrow> handleStateProvisioningActive cfg H inp s2)"
    by (simp only: loop_def Let_def s1_def [symmetric] s2_def [symmetric])
  show ?thesis
  proof (cases "restarted s1")
    case True
    then show ?thesis using i1 by (simp add: l)
  next
    case False
    have s2e: "s2 = s1\<lparr>led_level := led_level s2\<rparr>"
      using updateLED_frame [of cfg inp s1] by (simp add: s2_def)
    have i2: "retry_inv cfg s2" and r2: "\<not> restarted s2"
      using i1 False by (subst s2e, simp add: retry_inv_def)+
    have pos: "0 < maxRetries cfg" using m by (simp add: word_less_nat_alt word_le_nat_alt)
    show ?thesis
    proof (cases "state s2")
      case STATE_INIT
      then show ?thesis using i2 r2 False by (simp add: l handleStateInit_def retry_inv_def)
    next
      case STATE_LOAD_CONFIG
      then show ?thesis using i2 r2 False pos
        by (simp add: l handleStateLoadConfig_def loadCredentials_def store_defs retry_inv_def Let_def)
    next
      case STATE_CONNECTING
      then show ?thesis using i2 r2 False
        by (simp add: l handleStateConnecting_def connectToWiFi_def startConnectedWebServer_def
            retry_inv_def emit_def Let_def)
    next
      case STATE_CONNECTED
      then show ?thesis using i2 r2 False pos handleClient_frame [of cfg H inp s2]
        by (auto simp add: l handleStateConnected_def retry_inv_def Let_def)
    next
      case STATE_RETRY_WAIT
      then show ?thesis using i2 r2 False handleStateRetryWait_inv [OF m, of s2 inp]
        by (simp add: l retry_inv_def)
    next
      case STATE_PROVISIONING
      then show ?thesis using i2 r2 False startProvisioningMode_fields [of cfg inp s2]
        by (simp add: l handleStateProvisioning_def retry_inv_def)
    next
      case STATE_PROVISIONING_ACTIVE
      then show ?thesis using i2 r2 False handleClient_frame [of cfg H inp s2]
          stopProvisioningMode_fields [of "handleClient cfg H inp s2"]
        by (auto simp add: l handleStateProvisioningActive_def retry_inv_def Let_def)
    qed
  qed
qed

lemma checkDoubleReboot_fresh:
  "state (checkDoubleReboot cfg inp s) = state s \<and>
   retryCount (checkDoubleReboot cfg inp s) = retryCount s \<and>
   restarted (checkDoubleReboot cfg inp s) = restarted s \<and>
   (storedSSID s = [] \<longrightarrow> storedSSID (checkDoubleReboot cfg inp s) = [])"
  by (simp add: checkDoubleReboot_def clearAllCredentials_def store_defs Let_def)

lemma begin_retry_inv:
  assumes "1 \<le> maxRetries cfg"
  shows "retry_inv cfg (snd (begin' cfg inp
       ((ESP32_WiFiProvisioner flash)\<lparr>onConnectedCallback := c1, onFailedCallback := c2,
          onAPModeCallback := c3, onResetCallback := c4\<rparr>)))"
proof -
  have pos: "0 < maxRetries cfg" using assms by (simp add: word_less_nat_alt word_le_nat_alt)
  show ?thesis
    using pos checkDoubleReboot_fresh [of cfg inp "(ESP32_WiFiProvisioner flash)\<lparr>onConnectedCallback := c1, onFailedCallback := c2,
          onAPModeCallback := c3, onResetCallback := c4\<rparr>"]
    by (simp add: begin'_def retry_inv_def ESP32_WiFiProvisioner_def Let_def)
qed

lemma reachable_retry_inv:
  assumes "1 \<le> maxRetries cfg" and "reachable cfg H s"
  shows "retry_inv cfg s"
  using assms(2)
proof (induction rule: reachable.induct)
  case (startup inp flash c1 c2 c3 c4)
  show ?case by (rule begin_retry_inv [OF assms(1)])
next
  case (tick s inp)
  then show ?case by (simp add: loop_retry_inv [OF assms(1)])
qed

text \<open>
  C9. With \<open>maxRetries\<close> at least 1, in every state the device reaches the retry counter
  is at most \<open>maxRetries\<close>. The step that increments it, \<open>handleStateRetryWait\<close>, leaves
  it below \<open>maxRetries\<close> in \<open>STATE_RETRY_WAIT\<close> or \<open>STATE_CONNECTING\<close>, or leaves the retry
  path for \<open>STATE_PROVISIONING\<close> with the counter equal to \<open>maxRetries\<close>. Entering
  \<open>STATE_CONNECTING\<close> from \<open>handleStateLoadConfig\<close>, or from \<open>handleStateConnected\<close> on a
  lost link, sets it to 0.
\<close>

theorem retryCount_within_maxRetries:
  assumes "1 \<le> maxRetries cfg" and "reachable cfg H s"
  shows "retryCount s \<le> maxRetries cfg \<and>
         (state s = STATE_RETRY_WAIT \<and> \<not> restarted s \<longrightarrow>
            retryCount (handleStateRetryWait cfg inp s) < maxRetries cfg \<and>
              (state (handleStateRetryWait cfg inp s) = STATE_RETRY_WAIT \<or>
               state (handleStateRetryWait cfg inp s) = STATE_CONNECTING) \<or>
            retryCount (handleStateRetryWait cfg inp s) = maxRetries cfg \<and>
              state (handleStateRetryWait cfg inp s) = STATE_PROVISIONING) \<and>
         (state (handleStateLoadConfig inp s) = STATE_CONNECTING \<longrightarrow>
            retryCount (handleStateLoadConfig inp s) = 0) \<and>
         (\<not> link_up inp \<and> \<not> restarted (handleStateConnected cfg H inp s) \<longrightarrow>
            state (handleStateConnected cfg H inp s) = STATE_CONNECTING \<and>
            retryCount (handleStateConnected cfg H inp s) = 0)"
proof (intro conjI impI)
  have inv: "retry_inv cfg s" by (rule reachable_retry_inv [OF assms])
  then show "retryCount s \<le> maxRetries cfg" by (simp add: retry_inv_def)
  show "retryCount (handleStateRetryWait cfg inp s) < maxRetries cfg \<and>
              (state (handleStateRetryWait cfg inp s) = STATE_RETRY_WAIT \<or>
               state (handleStateRetryWait cfg inp s) = STATE_CONNECTING) \<or>
            retryCount (handleStateRetryWait cfg inp s) = maxRetries cfg \<and>
              state (handleStateRetryWait cfg inp s) = STATE_PROVISIONING"
    if w: "state s = STATE_RETRY_WAIT \<and> \<not> restarted s"
  proof -
    from inv w have lt: "retryCount s < maxRetries cfg" by (simp add: retry_inv_def)
    then have le: "retryCount s + 1 \<le> maxRetries cfg" by (rule inc_le)
    have pos: "0 < maxRetries cfg" using assms(1) by (simp add: word_less_nat_alt word_le_nat_alt)
    show ?thesis
      using w lt le pos
      by (auto simp add: handleStateRetryWait_def clearAllCredentials_fields emit_def Let_def)
  qed
  show "retryCount (handleStateLoadConfig inp s) = 0"
    if "state (handleStateLoadConfig inp s) = STATE_CONNECTING"
    using that
    by (simp add: handleStateLoadConfig_def loadCredentials_def store_defs Let_def
        split: if_splits)
  show "state (handleStateConnected cfg H inp s) = STATE_CONNECTING"
    if "\<not> link_up inp \<and> \<not> restarted (handleStateConnected cfg H inp s)"
    using that by (simp add: handleStateConnected_def Let_def split: if_splits)
  show "retryCount (handleStateConnected cfg H inp s) = 0"
    if "\<not> link_up inp \<and> \<not> restarted (handleStateConnected cfg H inp s)"
    using that by (simp add: handleStateConnected_def Let_def split: if_splits)
qed

lemmas machine_defs = loop_def checkHardwareReset_def updateLED_def handleStateInit_def
  handleStateLoadConfig_def handleStateConnecting_def handleStateConnected_def
  handleStateRetryWait_def handleStateProvisioning_def handleStateProvisioningActive_def
  connectToWiFi_def startConnectedWebServer_def startProvisioningMode_def
  stopProvisioningMode_def stopWebServer_def disconnectWiFi_def
  setupWebServerProvisioningMode_def handleClient_def begin'_def checkDoubleReboot_def
  loadCredentials_def loadResetPassword_def clearAllCredentials_def emit_def
  ESP32_WiFiProvisioner_def

theorem retryCount_within_maxRetries_witness:
  "1 \<le> maxRetries default_config \<and>
   reachable default_config demo_digest
     (loop default_config demo_digest (idle_input 5000)
       (loop default_config demo_digest (idle_input 20)
         (loop default_config demo_digest (idle_input 10) demo_boot))) \<and>
   retryCount (loop default_config demo_digest (idle_input 5000)
       (loop default_config demo_digest (idle_input 20)
         (loop default_config demo_digest (idle_input 10) demo_boot))) = 1 \<and>
   retryCount (loop default_config demo_digest (idle_input 5000)
       (loop default_config demo_digest (idle_input 20)
         (loop default_config demo_digest (idle_input 10) demo_boot)))
     \<le> maxRetries default_config"
proof -
  have m: "1 \<le> maxRetries default_config" by (simp add: default_config_def word_le_nat_alt)
  have r0: "reachable default_config demo_digest demo_boot"
    unfolding demo_boot_def by (rule reachable.startup)
  have b: "demo_boot =
     (ESP32_WiFiProvisioner flash_home)\<lparr>onFailedCallback := True, state := STATE_LOAD_CONFIG\<rparr>"
    by (simp add: demo_boot_def begin'_def default_config_def ESP32_WiFiProvisioner_def)
  have s1: "loop default_config demo_digest (idle_input 10) demo_boot =
     (ESP32_WiFiProvisioner flash_home)\<lparr>onFailedCallback := True, state := STATE_CONNECTING,
        storedSSID := ''home'', storedPassword := ''secret'',
        preferences := \<lparr>started = False, readOnly = True\<rparr>\<rparr>"
    unfolding b by (simp add: machine_defs store_defs default_config_def idle_input_def flash_home_def Let_def)
  have s2: "loop default_config demo_digest (idle_input 20)
       (loop default_config demo_digest (idle_input 10) demo_boot) =
     (ESP32_WiFiProvisioner flash_home)\<lparr>onFailedCallback := True, state := STATE_RETRY_WAIT,
        storedSSID := ''home'', storedPassword := ''secret'',
        preferences := \<lparr>started = False, readOnly = True\<rparr>,
        wifi_mode := WIFI_STA, lastRetryTime := 20\<rparr>"
    unfolding s1 by (simp add: machine_defs default_config_def idle_input_def Let_def)
  have s3: "loop default_config demo_digest (idle_input 5000)
       (loop default_config demo_digest (idle_input 20)
         (loop default_config demo_digest (idle_input 10) demo_boot)) =
     (ESP32_WiFiProvisioner flash_home)\<lparr>onFailedCallback := True, state := STATE_CONNECTING,
        storedSSID := ''home'', storedPassword := ''secret'',
        preferences := \<lparr>started = False, readOnly = True\<rparr>,
        wifi_mode := WIFI_STA, lastRetryTime := 20, retryCount := 1\<rparr>"
    unfolding s2 by (simp add: machine_defs default_config_def idle_input_def Let_def word_le_nat_alt)
  have r1: "reachable default_config demo_digest (loop default_config demo_digest (idle_input 10) demo_boot)"
    by (rule reachable.tick [OF r0]) (simp add: b ESP32_WiFiProvisioner_def)
  have r2: "reachable default_config demo_digest (loop default_config demo_digest (idle_input 20)
       (loop default_config demo_digest (idle_input 10) demo_boot))"
    by (rule reachable.tick [OF r1]) (simp add: s1 ESP32_WiFiProvisioner_def)
  have r3: "reachable default_config demo_digest (loop default_config demo_digest (idle_input 5000)
       (loop default_config demo_digest (idle_input 20)
         (loop default_config demo_digest (idle_input 10) demo_boot)))"
    by (rule reachable.tick [OF r2]) (simp add: s2 ESP32_WiFiProvisioner_def)
  have c: "retryCount (loop default_config demo_digest (idle_input 5000)
       (loop default_config demo_digest (idle_input 20)
         (loop default_config demo_digest (idle_input 10) demo_boot))) = 1"
    by (simp add: s3)
  show ?thesis
    using m r3 c retryCount_within_maxRetries [OF m r3, of "idle_input 0"] by simp
qed

text \<open>
  The retry path. While the reset button is idle, a tick is the state handler run on a
  state that differs from the one before in the button flag and the LED level only.
\<close>

lemma retry_frame_trans:
  "retry_frame a b \<Longrightarrow> retry_frame b c \<Longrightarrow> retry_frame a c"
  by (simp add: retry_frame_def)

lemma checkHardwareReset_idle:
  assumes "button_idle cfg inp"
  shows "checkHardwareReset cfg inp s = s\<lparr>buttonPressed := False\<rparr>"
  using assms by (cases "buttonPressed s") (auto simp add: checkHardwareReset_def button_idle_def Let_def)

lemma loop_idle:
  assumes "hardwareResetEnabled cfg \<longrightarrow> button_idle cfg inp" and "\<not> restarted s"
  shows "\<exists>b l. loop cfg H inp s =
     (case state s of
          STATE_INIT \<Rightarrow> handleStateInit (s\<lparr>buttonPressed := b, led_level := l\<rparr>)
        | STATE_LOAD_CONFIG \<Rightarrow> handleStateLoadConfig inp (s\<lparr>buttonPressed := b, led_level := l\<rparr>)
        | STATE_CONNECTING \<Rightarrow> handleStateConnecting cfg inp (s\<lparr>buttonPressed := b, led_level := l\<rparr>)
        | STATE_CONNECTED \<Rightarrow> handleStateConnected cfg H inp (s\<lparr>buttonPressed := b, led_level := l\<rparr>)
        | STATE_RETRY_WAIT \<Rightarrow> handleStateRetryWait cfg inp (s\<lparr>buttonPressed := b, led_level := l\<rparr>)
        | STATE_PROVISIONING \<Rightarrow> handleStateProvisioning cfg inp (s\<lparr>buttonPressed := b, led_level := l\<rparr>)
        | STATE_PROVISIONING_ACTIVE \<Rightarrow>
            handleStateProvisioningActive cfg H inp (s\<lparr>buttonPressed := b, led_level := l\<rparr>))"
proof -
  define s1 where "s1 = (if hardwareResetEnabled cfg then checkHardwareReset cfg inp s else s)"
  define s2 where "s2 = (if ledEnabled cfg then updateLED cfg inp s1 else s1)"
  define b where "b = buttonPressed s1"
  define l where "l = led_level s2"
  have e1: "s1 = s\<lparr>buttonPressed := b\<rparr>"
    using assms(1) by (simp add: s1_def b_def checkHardwareReset_idle)
  have "s2 = s1\<lparr>led_level := l\<rparr>"
    using updateLED_frame [of cfg inp s1] by (simp add: s2_def l_def)
  then have e: "s2 = s\<lparr>buttonPressed := b, led_level := l\<rparr>"
    by (simp add: e1)
  have r1: "\<not> restarted s1" using assms(2) by (simp add: e1)
  have "loop cfg H inp s =
     (case state s2 of
          STATE_INIT \<Rightarrow> handleStateInit s2
        | STATE_LOAD_CONFIG \<Rightarrow> handleStateLoadConfig inp s2
        | STATE_CONNECTING \<Rightarrow> handleStateConnecting cfg inp s2
        | STATE_CONNECTED \<Rightarrow> handleStateConnected cfg H inp s2
        | STATE_RETRY_WAIT \<Rightarrow> handleStateRetryWait cfg inp s2
        | STATE_PROVISIONING \<Rightarrow> handleStateProvisioning cfg inp s2
        | STATE_PROVISIONING_ACTIVE \<Rightarrow> handleStateProvisioningActive cfg H inp s2)"
    using r1 by (simp only: loop_def Let_def s1_def [symmetric] s2_def [symmetric] if_False)
  then show ?thesis
    unfolding e by (intro exI [of _ b] exI [of _ l]) simp
qed

lemma loop_connecting_fails:
  assumes "state s = STATE_CONNECTING" "\<not> restarted s" "\<not> join_ok inp"
    "hardwareResetEnabled cfg \<longrightarrow> button_idle cfg inp"
  shows "retry_frame s (loop cfg H inp s) \<and> state (loop cfg H inp s) = STATE_RETRY_WAIT \<and>
         lastRetryTime (loop cfg H inp s) = now inp \<and>
         retryCount (loop cfg H inp s) = retryCount s"
proof -
  from loop_idle [OF assms(4) assms(2), of H] assms(1)
  obtain b l where "loop cfg H inp s = handleStateConnecting cfg inp (s\<lparr>buttonPressed := b, led_level := l\<rparr>)"
    by auto
  then show ?thesis using assms(3)
    by (simp add: handleStateConnecting_def connectToWiFi_def retry_frame_def)
qed

lemma loop_retry_wait_again:
  assumes "state s = STATE_RETRY_WAIT" "\<not> restarted s"
    "retryDelay cfg \<le> now inp - lastRetryTime s" "retryCount s + 1 < maxRetries cfg"
    "hardwareResetEnabled cfg \<longrightarrow> button_idle cfg inp"
  shows "retry_frame s (loop cfg H inp s) \<and> state (loop cfg H inp s) = STATE_CONNECTING \<and>
         retryCount (loop cfg H inp s) = retryCount s + 1"
proof -
  from loop_idle [OF assms(5) assms(2), of H] assms(1)
  obtain b l where "loop cfg H inp s = handleStateRetryWait cfg inp (s\<lparr>buttonPressed := b, led_level := l\<rparr>)"
    by auto
  moreover have "\<not> maxRetries cfg \<le> retryCount s + 1" using assms(4) by (simp add: not_le)
  ultimately show ?thesis using assms(3)
    by (simp add: handleStateRetryWait_def retry_frame_def Let_def)
qed

lemma loop_retry_wait_exhausted:
  assumes "state s = STATE_RETRY_WAIT" "\<not> restarted s"
    "retryDelay cfg \<le> now inp - lastRetryTime s" "maxRetries cfg \<le> retryCount s + 1"
    "hardwareResetEnabled cfg \<longrightarrow> button_idle cfg inp"
  shows "events (loop cfg H inp s) =
           events s @ (if onFailedCallback s then [OnFailed (retryCount s + 1)] else []) \<and>
         \<not> restarted (loop cfg H inp s) \<and>
         (autoWipeOnMaxRetries cfg \<longrightarrow>
            state (loop cfg H inp s) = STATE_PROVISIONING \<and>
            storedSSID (loop cfg H inp s) = [] \<and>
            storedPassword (loop cfg H inp s) = [] \<and>
            resetPassword (loop cfg H inp s) = [] \<and>
            nvs (loop cfg H inp s) =
              (if nvs_ok inp \<and> \<not> started (preferences s) then Map.empty else nvs s)) \<and>
         (\<not> autoWipeOnMaxRetries cfg \<longrightarrow>
            state (loop cfg H inp s) = STATE_CONNECTING \<and>
            retryCount (loop cfg H inp s) = 0 \<and>
            storedSSID (loop cfg H inp s) = storedSSID s \<and>
            storedPassword (loop cfg H inp s) = storedPassword s \<and>
            resetPassword (loop cfg H inp s) = resetPassword s \<and>
            nvs (loop cfg H inp s) = nvs s)"
proof -
  from loop_idle [OF assms(5) assms(2), of H] assms(1)
  obtain b l where "loop cfg H inp s = handleStateRetryWait cfg inp (s\<lparr>buttonPressed := b, led_level := l\<rparr>)"
    by auto
  then show ?thesis using assms(2,3,4)
    by (simp add: handleStateRetryWait_def clearAllCredentials_fields emit_def Let_def)
qed

lemma run_append:
  "run cfg H (xs @ ys) s = run cfg H ys (run cfg H xs s)"
proof (induction xs arbitrary: s)
  case Nil
  show ?case by simp
next
  case (Cons x xs)
  show ?case
  proof (cases "restarted s")
    case True
    then show ?thesis by (cases ys) simp_all
  next
    case False
    then show ?thesis by (simp add: Cons.IH)
  qed
qed

lemma attempts_append: "attempts (xs @ ys) = attempts xs @ attempts ys"
  by (induction xs) simp_all

lemma loop_retry_wait_early:
  assumes "state s = STATE_RETRY_WAIT" "\<not> restarted s"
    "now inp - lastRetryTime s < retryDelay cfg"
    "hardwareResetEnabled cfg \<longrightarrow> button_idle cfg inp"
  shows "retry_frame s (loop cfg H inp s) \<and> state (loop cfg H inp s) = STATE_RETRY_WAIT \<and>
         lastRetryTime (loop cfg H inp s) = lastRetryTime s \<and>
         retryCount (loop cfg H inp s) = retryCount s"
proof -
  from loop_idle [OF assms(4) assms(2), of H] assms(1)
  obtain b l where "loop cfg H inp s = handleStateRetryWait cfg inp (s\<lparr>buttonPressed := b, led_level := l\<rparr>)"
    by auto
  moreover have "\<not> retryDelay cfg \<le> now inp - lastRetryTime s" using assms(3) by (simp add: not_le)
  ultimately show ?thesis using assms(1)
    by (simp add: handleStateRetryWait_def retry_frame_def)
qed

lemma early_ticks_wait:
  assumes "state s = STATE_RETRY_WAIT" and "\<not> restarted s"
    and "\<forall>e\<in>set es. now e - lastRetryTime s < retryDelay cfg"
    and "hardwareResetEnabled cfg \<longrightarrow> (\<forall>e\<in>set es. button_idle cfg e)"
  shows "retry_frame s (run cfg H es s) \<and> state (run cfg H es s) = STATE_RETRY_WAIT \<and>
         lastRetryTime (run cfg H es s) = lastRetryTime s \<and>
         retryCount (run cfg H es s) = retryCount s"
  using assms
proof (induction es arbitrary: s)
  case Nil
  then show ?case by (simp add: retry_frame_def)
next
  case (Cons e es)
  let ?n = "loop cfg H e s"
  have n: "retry_frame s ?n \<and> state ?n = STATE_RETRY_WAIT \<and>
           lastRetryTime ?n = lastRetryTime s \<and> retryCount ?n = retryCount s"
    using Cons.prems by (intro loop_retry_wait_early) simp_all
  then have rn: "\<not> restarted ?n" using Cons.prems(2) by (simp add: retry_frame_def)
  have ih: "retry_frame ?n (run cfg H es ?n) \<and> state (run cfg H es ?n) = STATE_RETRY_WAIT \<and>
         lastRetryTime (run cfg H es ?n) = lastRetryTime ?n \<and>
         retryCount (run cfg H es ?n) = retryCount ?n"
    using Cons.prems(3,4) n rn by (intro Cons.IH) simp_all
  have "run cfg H (e # es) s = run cfg H es ?n" using Cons.prems(2) by simp
  then show ?case using n ih by (auto intro: retry_frame_trans)
qed

lemma failed_join_then_wait:
  assumes "failed_attempt cfg r" and "state s = STATE_CONNECTING" and "\<not> restarted s"
  shows "retry_frame s (run cfg H (join_tick r # early_ticks r) s) \<and>
         state (run cfg H (join_tick r # early_ticks r) s) = STATE_RETRY_WAIT \<and>
         lastRetryTime (run cfg H (join_tick r # early_ticks r) s) = now (join_tick r) \<and>
         retryCount (run cfg H (join_tick r # early_ticks r) s) = retryCount s"
proof -
  let ?a = "loop cfg H (join_tick r) s"
  have a: "retry_frame s ?a \<and> state ?a = STATE_RETRY_WAIT \<and>
           lastRetryTime ?a = now (join_tick r) \<and> retryCount ?a = retryCount s"
    using assms by (intro loop_connecting_fails) (simp_all add: failed_attempt_def)
  then have ra: "\<not> restarted ?a" using assms(3) by (simp add: retry_frame_def)
  have e: "retry_frame ?a (run cfg H (early_ticks r) ?a) \<and>
         state (run cfg H (early_ticks r) ?a) = STATE_RETRY_WAIT \<and>
         lastRetryTime (run cfg H (early_ticks r) ?a) = lastRetryTime ?a \<and>
         retryCount (run cfg H (early_ticks r) ?a) = retryCount ?a"
    using assms(1) a ra by (intro early_ticks_wait) (simp_all add: failed_attempt_def)
  have "run cfg H (join_tick r # early_ticks r) s = run cfg H (early_ticks r) ?a"
    using assms(3) by simp
  then show ?thesis using a e by (auto intro: retry_frame_trans)
qed

lemma run_attempt:
  assumes "\<not> restarted (run cfg H (join_tick r # early_ticks r) s)"
  shows "run cfg H (attempts (r # rs)) s =
         run cfg H (attempts rs)
           (loop cfg H (retry_tick r) (run cfg H (join_tick r # early_ticks r) s))"
proof -
  have "attempts (r # rs) = (join_tick r # early_ticks r) @ (retry_tick r # attempts rs)"
    by simp
  then have "run cfg H (attempts (r # rs)) s =
      run cfg H (retry_tick r # attempts rs) (run cfg H (join_tick r # early_ticks r) s)"
    by (simp only: run_append)
  then show ?thesis using assms by simp
qed

lemma failed_rounds:
  assumes "\<forall>r\<in>set rs. failed_attempt cfg r"
    and "state s = STATE_CONNECTING" and "\<not> restarted s"
    and "unat (retryCount s) + length rs < unat (maxRetries cfg)"
  shows "retry_frame s (run cfg H (attempts rs) s) \<and>
         state (run cfg H (attempts rs) s) = STATE_CONNECTING \<and>
         unat (retryCount (run cfg H (attempts rs) s)) = unat (retryCount s) + length rs"
  using assms
proof (induction rs arbitrary: s)
  case Nil
  then show ?case by (simp add: retry_frame_def)
next
  case (Cons r rs)
  let ?a = "run cfg H (join_tick r # early_ticks r) s"
  let ?w = "loop cfg H (retry_tick r) ?a"
  from Cons.prems(1) have f: "failed_attempt cfg r" by simp
  from Cons.prems(4) have lt: "unat (retryCount s) + 1 < unat (maxRetries cfg)" by simp
  have u: "unat (retryCount s + 1) = unat (retryCount s) + 1"
    using lt by unat_arith
  have a: "retry_frame s ?a \<and> state ?a = STATE_RETRY_WAIT \<and>
           lastRetryTime ?a = now (join_tick r) \<and> retryCount ?a = retryCount s"
    using f Cons.prems(2,3) by (rule failed_join_then_wait)
  then have ra: "\<not> restarted ?a" using Cons.prems(3) by (simp add: retry_frame_def)
  have w: "retry_frame ?a ?w \<and> state ?w = STATE_CONNECTING \<and> retryCount ?w = retryCount ?a + 1"
    using f a ra lt u by (intro loop_retry_wait_again) (simp_all add: failed_attempt_def word_less_nat_alt)
  then have rw: "\<not> restarted ?w" using ra by (simp add: retry_frame_def)
  have fr: "retry_frame s ?w" using a w by (blast intro: retry_frame_trans)
  have cnt: "unat (retryCount ?w) = unat (retryCount s) + 1" using a w u by simp
  have ih: "retry_frame ?w (run cfg H (attempts rs) ?w) \<and>
         state (run cfg H (attempts rs) ?w) = STATE_CONNECTING \<and>
         unat (retryCount (run cfg H (attempts rs) ?w)) = unat (retryCount ?w) + length rs"
    using Cons.prems(1,4) w rw cnt by (intro Cons.IH) simp_all
  have "run cfg H (attempts (r # rs)) s = run cfg H (attempts rs) ?w"
    using ra by (rule run_attempt)
  then show ?case using ih fr cnt by (auto intro: retry_frame_trans)
qed

lemma last_failed_round:
  assumes "failed_attempt cfg r" and "state s = STATE_CONNECTING" and "\<not> restarted s"
    and "unat (retryCount s) + 1 = unat (maxRetries cfg)"
  shows "events (run cfg H (attempts [r]) s) =
           events s @ (if onFailedCallback s then [OnFailed (maxRetries cfg)] else []) \<and>
         (autoWipeOnMaxRetries cfg \<longrightarrow>
            state (run cfg H (attempts [r]) s) = STATE_PROVISIONING \<and>
            storedSSID (run cfg H (attempts [r]) s) = [] \<and>
            storedPassword (run cfg H (attempts [r]) s) = [] \<and>
            resetPassword (run cfg H (attempts [r]) s) = [] \<and>
            nvs (run cfg H (attempts [r]) s) =
              (if nvs_ok (retry_tick r) \<and> \<not> started (preferences s) then Map.empty else nvs s)) \<and>
         (\<not> autoWipeOnMaxRetries cfg \<longrightarrow>
            state (run cfg H (attempts [r]) s) = STATE_CONNECTING \<and>
            retryCount (run cfg H (attempts [r]) s) = 0 \<and>
            storedSSID (run cfg H (attempts [r]) s) = storedSSID s \<and>
            storedPassword (run cfg H (attempts [r]) s) = storedPassword s \<and>
            resetPassword (run cfg H (attempts [r]) s) = resetPassword s \<and>
            nvs (run cfg H (attempts [r]) s) = nvs s)"
proof -
  let ?a = "run cfg H (join_tick r # early_ticks r) s"
  let ?w = "loop cfg H (retry_tick r) ?a"
  have eq: "retryCount s + 1 = maxRetries cfg" using assms(4) by unat_arith
  have a: "retry_frame s ?a \<and> state ?a = STATE_RETRY_WAIT \<and>
           lastRetryTime ?a = now (join_tick r) \<and> retryCount ?a = retryCount s"
    using assms(1,2,3) by (rule failed_join_then_wait)
  then have ra: "\<not> restarted ?a" using assms(3) by (simp add: retry_frame_def)
  have w: "events ?w = events ?a @ (if onFailedCallback ?a then [OnFailed (retryCount ?a + 1)] else []) \<and>
         \<not> restarted ?w \<and>
         (autoWipeOnMaxRetries cfg \<longrightarrow>
            state ?w = STATE_PROVISIONING \<and> storedSSID ?w = [] \<and> storedPassword ?w = [] \<and>
            resetPassword ?w = [] \<and>
            nvs ?w = (if nvs_ok (retry_tick r) \<and> \<not> started (preferences ?a) then Map.empty else nvs ?a)) \<and>
         (\<not> autoWipeOnMaxRetries cfg \<longrightarrow>
            state ?w = STATE_CONNECTING \<and> retryCount ?w = 0 \<and>
            storedSSID ?w = storedSSID ?a \<and> storedPassword ?w = storedPassword ?a \<and>
            resetPassword ?w = resetPassword ?a \<and> nvs ?w = nvs ?a)"
    using assms(1) a ra eq by (intro loop_retry_wait_exhausted) (simp_all add: failed_attempt_def)
  have r: "run cfg H (attempts [r]) s = ?w" using run_attempt [OF ra, of "[]"] by simp
  from a have f: "events ?a = events s" "nvs ?a = nvs s" "storedSSID ?a = storedSSID s"
    "storedPassword ?a = storedPassword s" "resetPassword ?a = resetPassword s"
    "onFailedCallback ?a = onFailedCallback s" "preferences ?a = preferences s"
    "retryCount ?a = retryCount s"
    by (simp_all add: retry_frame_def)
  define a where "a = run cfg H (join_tick r # early_ticks r) s"
  have r': "run cfg H (attempts [r]) s = loop cfg H (retry_tick r) a"
    by (simp only: r a_def)
  show ?thesis
    unfolding r' using w [folded a_def] by (simp add: f [folded a_def] eq)
qed

text \<open>
  C1, as amended. Let \<open>maxRetries\<close> be N, at least 1, and let the device be in
  \<open>STATE_CONNECTING\<close> with retry counter 0. Run N failed attempts, each a tick in which
  the join fails, any ticks taken before \<open>retryDelay\<close> has passed, and the tick taken once
  it has passed. After k attempts, k below N, the device is back in \<open>STATE_CONNECTING\<close>
  with counter k, no callback fired and nothing erased. After the N-th attempt the failed
  callback (if registered) has fired once, with N; with \<open>autoWipeOnMaxRetries\<close> the state
  is \<open>STATE_PROVISIONING\<close>, the cached credentials and digest are empty, and the flash
  namespace is erased if it opens on that last tick and left as it was if it does not;
  without \<open>autoWipeOnMaxRetries\<close> the counter is 0 again, the state is
  \<open>STATE_CONNECTING\<close> and the credentials are as before.
\<close>

theorem retries_exhausted:
  assumes "1 \<le> maxRetries cfg" and "length rs = unat (maxRetries cfg)"
    and "\<forall>r\<in>set rs. failed_attempt cfg r"
    and "state s = STATE_CONNECTING" and "retryCount s = 0" and "\<not> restarted s"
  shows "(\<forall>k<length rs.
            state (run cfg H (attempts (take k rs)) s) = STATE_CONNECTING \<and>
            retryCount (run cfg H (attempts (take k rs)) s) = of_nat k \<and>
            events (run cfg H (attempts (take k rs)) s) = events s \<and>
            nvs (run cfg H (attempts (take k rs)) s) = nvs s \<and>
            storedSSID (run cfg H (attempts (take k rs)) s) = storedSSID s \<and>
            storedPassword (run cfg H (attempts (take k rs)) s) = storedPassword s) \<and>
         events (run cfg H (attempts rs) s) =
           events s @ (if onFailedCallback s then [OnFailed (maxRetries cfg)] else []) \<and>
         (autoWipeOnMaxRetries cfg \<longrightarrow>
            state (run cfg H (attempts rs) s) = STATE_PROVISIONING \<and>
            storedSSID (run cfg H (attempts rs) s) = [] \<and>
            storedPassword (run cfg H (attempts rs) s) = [] \<and>
            resetPassword (run cfg H (attempts rs) s) = [] \<and>
            nvs (run cfg H (attempts rs) s) =
              (if nvs_ok (retry_tick (last rs)) \<and> \<not> started (preferences s)
               then Map.empty else nvs s)) \<and>
         (\<not> autoWipeOnMaxRetries cfg \<longrightarrow>
            state (run cfg H (attempts rs) s) = STATE_CONNECTING \<and>
            retryCount (run cfg H (attempts rs) s) = 0 \<and>
            storedSSID (run cfg H (attempts rs) s) = storedSSID s \<and>
            storedPassword (run cfg H (attempts rs) s) = storedPassword s \<and>
            nvs (run cfg H (attempts rs) s) = nvs s)"
proof -
  have first: "state (run cfg H (attempts (take k rs)) s) = STATE_CONNECTING \<and>
            retryCount (run cfg H (attempts (take k rs)) s) = of_nat k \<and>
            events (run cfg H (attempts (take k rs)) s) = events s \<and>
            nvs (run cfg H (attempts (take k rs)) s) = nvs s \<and>
            storedSSID (run cfg H (attempts (take k rs)) s) = storedSSID s \<and>
            storedPassword (run cfg H (attempts (take k rs)) s) = storedPassword s"
    if k: "k < length rs" for k
  proof -
    have "\<forall>r\<in>set (take k rs). failed_attempt cfg r"
      using assms(3) by (auto dest: in_set_takeD)
    moreover have "unat (retryCount s) + length (take k rs) < unat (maxRetries cfg)"
      using k assms(2,5) by simp
    ultimately have f: "retry_frame s (run cfg H (attempts (take k rs)) s) \<and>
         state (run cfg H (attempts (take k rs)) s) = STATE_CONNECTING \<and>
         unat (retryCount (run cfg H (attempts (take k rs)) s)) =
           unat (retryCount s) + length (take k rs)"
      using assms(4,6) by (intro failed_rounds) simp_all
    then have u: "unat (retryCount (run cfg H (attempts (take k rs)) s)) = k"
      using k assms(5) by simp
    have "word_of_nat (unat (retryCount (run cfg H (attempts (take k rs)) s))) =
          retryCount (run cfg H (attempts (take k rs)) s)"
      by simp
    with u have "retryCount (run cfg H (attempts (take k rs)) s) = of_nat k"
      by metis
    with f show ?thesis by (simp add: retry_frame_def)
  qed
  have ne: "rs \<noteq> []" using assms(1,2) by (auto simp add: word_le_nat_alt)
  then have split: "rs = butlast rs @ [last rs]" by simp
  let ?p = "run cfg H (attempts (butlast rs)) s"
  have pos: "0 < length rs" using ne by simp
  have bl: "\<forall>r\<in>set (butlast rs). failed_attempt cfg r"
    using assms(3) by (auto dest: in_set_butlastD)
  have "unat (retryCount s) + length (butlast rs) < unat (maxRetries cfg)"
    using pos assms(2,5) by simp
  then have p: "retry_frame s ?p \<and> state ?p = STATE_CONNECTING \<and>
           unat (retryCount ?p) = unat (retryCount s) + length (butlast rs)"
    using bl assms(4,6) by (intro failed_rounds) simp_all
  then have rp: "\<not> restarted ?p" using assms(6) by (simp add: retry_frame_def)
  have cnt: "unat (retryCount ?p) + 1 = unat (maxRetries cfg)"
    using p assms(2,5) pos by simp
  have lastf: "failed_attempt cfg (last rs)" using assms(3) ne by simp
  have r: "run cfg H (attempts rs) s = run cfg H (attempts [last rs]) ?p"
    by (subst split) (simp only: attempts_append run_append)
  from p have f: "events ?p = events s" "nvs ?p = nvs s" "storedSSID ?p = storedSSID s"
    "storedPassword ?p = storedPassword s" "resetPassword ?p = resetPassword s"
    "onFailedCallback ?p = onFailedCallback s" "preferences ?p = preferences s"
    by (simp_all add: retry_frame_def)
  define t where "t = run cfg H (attempts [last rs]) ?p"
  from p have st: "state ?p = STATE_CONNECTING" by simp
  note fin = last_failed_round [OF lastf st rp cnt, of H, folded t_def]
  have r': "run cfg H (attempts rs) s = t" by (simp only: r t_def)
  show ?thesis
    unfolding r' using first fin by (simp add: f)
qed

theorem retries_exhausted_witness:
  "state (run (setMaxRetries 3 default_config) demo_digest (attempts (take 2 three_failures))
            connecting_device) = STATE_CONNECTING \<and>
   retryCount (run (setMaxRetries 3 default_config) demo_digest (attempts (take 2 three_failures))
            connecting_device) = 2 \<and>
   state (run (setMaxRetries 3 default_config) demo_digest (attempts three_failures)
            connecting_device) = STATE_PROVISIONING \<and>
   events (run (setMaxRetries 3 default_config) demo_digest (attempts three_failures)
            connecting_device) = [OnFailed 3] \<and>
   storedSSID (run (setMaxRetries 3 default_config) demo_digest (attempts three_failures)
            connecting_device) = [] \<and>
   nvs (run (setMaxRetries 3 default_config) demo_digest (attempts three_failures)
            connecting_device) = Map.empty"
proof -
  have m: "1 \<le> maxRetries (setMaxRetries 3 default_config)"
    by (simp add: setMaxRetries_def word_le_nat_alt)
  have n: "length three_failures = unat (maxRetries (setMaxRetries 3 default_config))"
    by (simp add: setMaxRetries_def three_failures_def)
  have f: "\<forall>r\<in>set three_failures. failed_attempt (setMaxRetries 3 default_config) r"
    by (simp add: three_failures_def failed_attempt_def setMaxRetries_def default_config_def
        idle_input_def word_le_nat_alt word_less_nat_alt)
  have s: "state connecting_device = STATE_CONNECTING" "retryCount connecting_device = 0"
    "\<not> restarted connecting_device"
    by (simp_all add: connecting_device_def ESP32_WiFiProvisioner_def)
  have k: "2 < length three_failures" by (simp add: three_failures_def)
  have l: "nvs_ok (retry_tick (last three_failures))"
    by (simp add: three_failures_def idle_input_def)
  have c: "autoWipeOnMaxRetries (setMaxRetries 3 default_config)"
    "maxRetries (setMaxRetries 3 default_config) = 3"
    "onFailedCallback connecting_device" "events connecting_device = []"
    "\<not> started (preferences connecting_device)"
    by (simp_all add: setMaxRetries_def default_config_def connecting_device_def
        ESP32_WiFiProvisioner_def)
  from retries_exhausted [OF m n f s, of demo_digest] k l c show ?thesis
    by simp
qed

text \<open>
  The claim as stated, credentials erased after the N-th failure, fails when the namespace
  does not open on the tick that exhausts the retries: the callback fires with 3 and the
  state is \<open>STATE_PROVISIONING\<close>, but ssid and password are still in flash, and a load on
  the next start finds them.
\<close>

theorem retries_exhausted_flash_closed:
  "state (run (setMaxRetries 3 default_config) demo_digest (attempts three_failures_flash_closed)
            connecting_device) = STATE_PROVISIONING \<and>
   events (run (setMaxRetries 3 default_config) demo_digest (attempts three_failures_flash_closed)
            connecting_device) = [OnFailed 3] \<and>
   nvs (run (setMaxRetries 3 default_config) demo_digest (attempts three_failures_flash_closed)
            connecting_device) = flash_home \<and>
   fst (loadCredentials True (ESP32_WiFiProvisioner
     (nvs (run (setMaxRetries 3 default_config) demo_digest (attempts three_failures_flash_closed)
            connecting_device))))"
proof -
  have e: "run (setMaxRetries 3 default_config) demo_digest (attempts three_failures_flash_closed)
            connecting_device =
     (ESP32_WiFiProvisioner flash_home)
       \<lparr>state := STATE_PROVISIONING, retryCount := 3, lastRetryTime := 36000,
        onFailedCallback := True, wifi_mode := WIFI_STA, events := [OnFailed 3]\<rparr>"
    by (simp add: three_failures_flash_closed_def connecting_device_def setMaxRetries_def
        default_config_def machine_defs store_defs idle_input_def Let_def word_le_nat_alt)
  show ?thesis
    unfolding e
    by (simp add: loadCredentials_def store_defs ESP32_WiFiProvisioner_def flash_home_def Let_def)
qed

section \<open>Portal timeout\<close>

lemma portal_open_eq:
  "portal_open =
     (ESP32_WiFiProvisioner Map.empty)
       \<lparr>state := STATE_PROVISIONING_ACTIVE, apStartTime := 20,
        preferences := \<lparr>started = False, readOnly = True\<rparr>,
        dnsServer := Some True,
        webServer := Some \<lparr>routes = [(''/'', HTTP_GET, H_Root), (''/scan'', HTTP_GET, H_Scan),
                   (''/save'', HTTP_POST, H_Save), (''/save'', HTTP_GET, H_SaveGet)],
              notFoundHandler = Some H_NotFound, listening = True\<rparr>,
        wifi_mode := WIFI_AP, softAP_up := Some (''ESP32-Config-ABCDEF'', [])\<rparr>"
  by (simp add: portal_open_def unprovisioned_boot_def machine_defs store_defs default_config_def
      idle_input_def getMACAddress_def hex2_def hexdigit_def Let_def)

text \<open>
  C2 says that a tick in \<open>STATE_PROVISIONING_ACTIVE\<close>, taken when the portal timeout has
  elapsed and no ssid is stored, changes nothing. The code calls
  \<^verbatim>\<open>stopProvisioningMode()\<close> before it looks at the stored ssid. A device with the default
  configuration and an empty flash namespace has its portal open at 20 ms, with access
  point, DNS server and web server running; after the tick at 300020 ms the state is still
  \<open>STATE_PROVISIONING_ACTIVE\<close>, but the access point is down, the DNS server is stopped
  and the web server is deleted.
\<close>

theorem portal_timeout_without_credentials:
  "state portal_open = STATE_PROVISIONING_ACTIVE \<and>
   storedSSID portal_open = [] \<and>
   softAP_up portal_open = Some (''ESP32-Config-ABCDEF'', []) \<and>
   dnsServer portal_open = Some True \<and>
   webServer portal_open \<noteq> None \<and>
   state (loop default_config demo_digest (idle_input 300020) portal_open) = STATE_PROVISIONING_ACTIVE \<and>
   softAP_up (loop default_config demo_digest (idle_input 300020) portal_open) = None \<and>
   dnsServer (loop default_config demo_digest (idle_input 300020) portal_open) = Some False \<and>
   webServer (loop default_config demo_digest (idle_input 300020) portal_open) = None"
  unfolding portal_open_eq
  by (simp add: machine_defs default_config_def idle_input_def Let_def word_le_nat_alt word_less_nat_alt)

text \<open>
  The same on every such tick, whatever the configuration: with the timeout elapsed, no
  request pending and no ssid cached, the state stays and the portal is taken down.
\<close>

lemma handleStateProvisioningActive_timeout:
  assumes "0 < apTimeout cfg" and "apTimeout cfg \<le> now inp - apStartTime s"
    and "request inp = None" and "storedSSID s = []" and "\<not> restarted s"
  shows "state (handleStateProvisioningActive cfg H inp s) = state s \<and>
         softAP_up (handleStateProvisioningActive cfg H inp s) = None \<and>
         webServer (handleStateProvisioningActive cfg H inp s) = None \<and>
         dnsServer (handleStateProvisioningActive cfg H inp s) =
           (if dnsServer s = None then None else Some False)"
proof -
  have "handleClient cfg H inp s = s"
    using assms(3) by (simp add: handleClient_def split: option.splits)
  then show ?thesis
    using assms stopProvisioningMode_fields [of s]
    by (simp add: handleStateProvisioningActive_def Let_def)
qed

section \<open>Double-reboot detection\<close>

text \<open>Whatever it finds, \<open>checkDoubleReboot\<close> leaves the three credential keys in flash.\<close>

lemma checkDoubleReboot_keeps_credentials:
  "nvs (checkDoubleReboot cfg inp s) NVS_SSID = nvs s NVS_SSID \<and>
   nvs (checkDoubleReboot cfg inp s) NVS_PASSWORD = nvs s NVS_PASSWORD \<and>
   nvs (checkDoubleReboot cfg inp s) NVS_RESET_PWD = nvs s NVS_RESET_PWD"
  by (simp add: checkDoubleReboot_def clearAllCredentials_def store_defs Let_def)

text \<open>
  What a startup records when the namespace opens: the counter found (0 when absent) plus
  one and the current clock value; on a detected double reboot, that is a count of at
  least 2 with the clock less than the window past the recorded time, the counter 0.
\<close>

lemma checkDoubleReboot_record:
  assumes "nvs_ok inp" and "\<not> started (preferences s)"
  shows "nvs (checkDoubleReboot cfg inp s) =
           (let bootCount = (case nvs s NVS_BOOT_COUNT of Some (NvsUInt v) \<Rightarrow> v | _ \<Rightarrow> 0) + 1;
                lastBootTime = (case nvs s NVS_BOOT_TIME of Some (NvsUInt v) \<Rightarrow> v | _ \<Rightarrow> 0)
            in (nvs s)(NVS_BOOT_COUNT \<mapsto>
                         NvsUInt (if 2 \<le> bootCount \<and> now inp - lastBootTime < doubleRebootWindow cfg
                                  then 0 else bootCount),
                       NVS_BOOT_TIME \<mapsto> NvsUInt (now inp)))"
  using assms
  by (auto simp add: checkDoubleReboot_def clearAllCredentials_def store_defs Let_def fun_upd_twist)

lemma first_boot_nvs:
  "nvs first_boot = flash_home(NVS_BOOT_COUNT \<mapsto> NvsUInt 1, NVS_BOOT_TIME \<mapsto> NvsUInt 100)"
  by (simp add: first_boot_def double_reboot_config_def enableDoubleRebootDetect_def
      default_config_def begin'_def checkDoubleReboot_def clearAllCredentials_def store_defs
      ESP32_WiFiProvisioner_def idle_input_def flash_home_def Let_def word_le_nat_alt)

text \<open>
  C4 says that the second of two startups within the window erases the stored
  credentials. In the code \<open>clearAllCredentials\<close> calls \<^verbatim>\<open>begin\<close> on the handle that
  \<open>checkDoubleReboot\<close> is holding open; the call is refused and the \<^verbatim>\<open>clear()\<close> is
  skipped. Two startups, at 100 ms and at 200 ms of their clocks, with a window of
  10000 ms: the first records count 1 and time 100; the second detects the double reboot
  (the counter is back to 0) and leaves ssid and password in flash, and the next tick
  loads them and goes to \<open>STATE_CONNECTING\<close>.
\<close>

theorem double_reboot_keeps_flash_credentials:
  "nvs first_boot = flash_home(NVS_BOOT_COUNT \<mapsto> NvsUInt 1, NVS_BOOT_TIME \<mapsto> NvsUInt 100) \<and>
   nvs second_boot = flash_home(NVS_BOOT_COUNT \<mapsto> NvsUInt 0, NVS_BOOT_TIME \<mapsto> NvsUInt 200) \<and>
   state (loop double_reboot_config demo_digest (idle_input 300) second_boot) = STATE_CONNECTING \<and>
   storedSSID (loop double_reboot_config demo_digest (idle_input 300) second_boot) = ''home'' \<and>
   storedPassword (loop double_reboot_config demo_digest (idle_input 300) second_boot) = ''secret''"
  unfolding second_boot_def first_boot_nvs
  by (simp add: first_boot_nvs double_reboot_config_def enableDoubleRebootDetect_def
      default_config_def machine_defs store_defs idle_input_def flash_home_def Let_def
      word_le_nat_alt word_less_nat_alt fun_upd_twist)

section \<open>Network scan\<close>

text \<open>
  C8 says that the response to \<^verbatim>\<open>GET /scan\<close> is a JSON array with one entry per
  network. The ssid is copied into the text without escaping: for a single network whose
  ssid is \<^verbatim>\<open>a"},{"ssid":"b\<close> the response reads as an array of two entries, the
  first without signal strength and security flag.
\<close>

theorem handleScan_unescaped_ssid:
  "events (handleScan ((idle_input 0)\<lparr>scan_found := Some [quoted_network]\<rparr>)
            (ESP32_WiFiProvisioner Map.empty)) =
     [Send 200 ''application/json''
        ''[{\"ssid\":\"a\"},{\"ssid\":\"b\",\"rssi\":-50,\"secure\":true}]'']"
  by (simp add: handleScan_def handleScan_loop.simps quoted_network_def scan_entry_def
      String_of_int_def idle_input_def emit_def ESP32_WiFiProvisioner_def Let_def)

text \<open>
  For every list of networks the loop writes one entry per network, in the order of the
  scan, separated by commas, and the scan results are freed.
\<close>

lemma handleScan_loop_entries:
  assumes "i \<le> length nets"
  shows "handleScan_loop nets (int (length nets)) (int i) acc =
           acc @ concat (map (\<lambda>k. (if 0 < k then '','' else []) @ scan_entry (nets ! k))
                           [i..<length nets])"
  using assms
proof (induction "length nets - i" arbitrary: i acc)
  case 0
  then have "i = length nets" by simp
  then show ?case by (simp add: handleScan_loop.simps [of nets "int (length nets)" "int (length nets)"])
next
  case (Suc d)
  then have lt: "i < length nets" by simp
  have d: "d = length nets - Suc i" using Suc.hyps(2) by simp
  have step: "handleScan_loop nets (int (length nets)) (int i) acc =
        handleScan_loop nets (int (length nets)) (int (Suc i))
          (acc @ (if 0 < i then '','' else []) @ scan_entry (nets ! i))"
    using lt by (subst handleScan_loop.simps) (simp add: add.commute)
  have "handleScan_loop nets (int (length nets)) (int (Suc i))
          (acc @ (if 0 < i then '','' else []) @ scan_entry (nets ! i)) =
        (acc @ (if 0 < i then '','' else []) @ scan_entry (nets ! i)) @
          concat (map (\<lambda>k. (if 0 < k then '','' else []) @ scan_entry (nets ! k))
                           [Suc i..<length nets])"
    using lt by (intro Suc.hyps(1) [OF d]) simp
  then show ?case
    using lt by (simp add: step upt_conv_Cons)
qed

lemma handleScan_response:
  assumes "scan_found inp = Some nets"
  shows "events (handleScan inp s) =
           events s @ [Send 200 ''application/json''
             (''['' @ concat (map (\<lambda>k. (if 0 < k then '','' else []) @ scan_entry (nets ! k))
                               [0..<length nets]) @ '']'')] \<and>
         scan_results (handleScan inp s) = []"
  using assms handleScan_loop_entries [of 0 nets "''[''"]
  by (simp add: handleScan_def emit_def Let_def)

section \<open>Authenticated reset on a connected device\<close>

lemma connected_device_eq:
  "connected_device =
     (ESP32_WiFiProvisioner flash_with_digest)
       \<lparr>state := STATE_CONNECTED, storedSSID := ''home'', storedPassword := ''secret'',
        preferences := \<lparr>started = False, readOnly = True\<rparr>, wifi_mode := WIFI_STA,
        webServer := Some
             \<lparr>routes = [(''/reset'', HTTP_POST, H_Reset), (''/status'', HTTP_GET, H_Status)],
              notFoundHandler = None, listening = True\<rparr>\<rparr>"
  by (simp add: connected_device_def auth_reset_config_def enableAuthenticatedHttpReset_def
      default_config_def machine_defs store_defs idle_input_def flash_with_digest_def Let_def)

text \<open>
  C3 says that a \<^verbatim>\<open>POST /reset\<close> carrying the password whose digest is stored is
  answered by a reset. \<open>handleReset\<close> compares with the member \<open>resetPassword\<close>, which
  only \<open>startProvisioningMode\<close> loads from flash. A device that starts with credentials
  and the digest of \<^verbatim>\<open>admin\<close> in flash goes through \<open>STATE_LOAD_CONFIG\<close> and
  \<open>STATE_CONNECTING\<close> to \<open>STATE_CONNECTED\<close> with the member still empty: the request
  with the password \<^verbatim>\<open>admin\<close> is answered 401, nothing is erased and the device does
  not restart.
\<close>

theorem authenticated_reset_refused_when_connected:
  "state connected_device = STATE_CONNECTED \<and>
   nvs connected_device NVS_RESET_PWD = Some (NvsStr (demo_digest ''admin'')) \<and>
   events (loop auth_reset_config demo_digest
       ((idle_input 30)\<lparr>link_up := True, request := Some (post_reset ''admin'')\<rparr>)
       connected_device) = [Send 401 ''text/plain'' ''Invalid password''] \<and>
   \<not> restarted (loop auth_reset_config demo_digest
       ((idle_input 30)\<lparr>link_up := True, request := Some (post_reset ''admin'')\<rparr>)
       connected_device) \<and>
   nvs (loop auth_reset_config demo_digest
       ((idle_input 30)\<lparr>link_up := True, request := Some (post_reset ''admin'')\<rparr>)
       connected_device) = flash_with_digest"
  unfolding connected_device_eq
  by (simp add: auth_reset_config_def enableAuthenticatedHttpReset_def default_config_def
      machine_defs run_handler_def handleReset_def verifyPassword_def hashPassword_def
      demo_digest_def post_reset_def arg_def idle_input_def flash_with_digest_def Let_def)

end
